theory Spec2Isabelle
  imports Complex_Main "HOL-Library.AList" "HOL-Library.Multiset"
begin

section \<open>Data model of IFCtoSCR.py\<close>

text \<open>
  A point is the tuple \<open>(x, y, z)\<close>, a line the tuple \<open>((xi, yi, zi), (xj, yj, zj))\<close>;
  \<open>line[0][2]\<close> is \<open>pz (fst line)\<close>. The coordinates are Python floats, that is binary64
  numbers. A coordinate of the input is finite and is modelled by the real number it
  denotes. A result of float arithmetic is a \<open>pyfloat\<close>: a finite number, an infinity
  or NaN. The sign of zero is not modelled; no operation of the program observes it.
\<close>

type_synonym point = "real \<times> real \<times> real"
type_synonym line = "point \<times> point"

datatype pyfloat = Fin real | PInf | NInf | NaN

type_synonym fpoint = "pyfloat \<times> pyfloat \<times> pyfloat"
type_synonym fline = "fpoint \<times> fpoint"

definition px :: "'a \<times> 'a \<times> 'a \<Rightarrow> 'a" where
  "px p = fst p"

definition py :: "'a \<times> 'a \<times> 'a \<Rightarrow> 'a" where
  "py p = fst (snd p)"

definition pz :: "'a \<times> 'a \<times> 'a \<Rightarrow> 'a" where
  "pz p = snd (snd p)"

text \<open>
  The exceptions. \<open>IdealizationError\<close> and \<open>MalformedMeshError\<close> are the classes named by
  the specification; no statement of the source raises them.
\<close>

datatype py_error = ValueError | ZeroDivisionError | IndexError | KeyError
  | OverflowError | TypeError | IdealizationError | MalformedMeshError

text \<open>Python's \<open>max\<close> of a list: ValueError on the empty list, else the first maximum.\<close>

definition py_max :: "real list \<Rightarrow> py_error + real" where
  "py_max zs = (case zs of [] \<Rightarrow> Inl ValueError
                | z # rest \<Rightarrow> Inr (fold (\<lambda>item m. if item > m then item else m) rest z))"

section \<open>Float arithmetic\<close>

text \<open>
  Rounding to the nearest binary64 number, ties to even, with an unbounded exponent:
  a number of magnitude at least \<open>2\<^sup>-\<^sup>1\<^sup>0\<^sup>2\<^sup>2\<close> has 53 significant bits, a smaller one is
  a multiple of \<open>2\<^sup>-\<^sup>1\<^sup>0\<^sup>7\<^sup>4\<close>. A rounded result above the greatest finite float is an
  infinity.
\<close>

definition round_half_even :: "real \<Rightarrow> int" where
  "round_half_even r =
     (let f = \<lfloor>r\<rfloor>; d = r - of_int f
      in if d < 1/2 then f else if 1/2 < d then f + 1 else if even f then f else f + 1)"

definition ulp_exp :: "real \<Rightarrow> int" where
  "ulp_exp x = max \<lfloor>log 2 \<bar>x\<bar>\<rfloor> (- 1022) - 52"

definition rnd :: "real \<Rightarrow> real" where
  "rnd x = (if x = 0 then 0
            else of_int (round_half_even (x / 2 powr of_int (ulp_exp x))) * 2 powr of_int (ulp_exp x))"

definition max_float :: real where
  "max_float = (2 ^ 53 - 1) * 2 ^ 971"

definition to_float :: "real \<Rightarrow> pyfloat" where
  "to_float r = (if max_float < r then PInf else if r < - max_float then NInf else Fin r)"

text \<open>Negation, addition, subtraction, division by a positive number and \<open>>\<close> on floats.\<close>

fun fneg :: "pyfloat \<Rightarrow> pyfloat" where
  "fneg (Fin x) = Fin (- x)"
| "fneg PInf = NInf"
| "fneg NInf = PInf"
| "fneg NaN = NaN"

fun fadd :: "pyfloat \<Rightarrow> pyfloat \<Rightarrow> pyfloat" where
  "fadd (Fin x) (Fin y) = to_float (rnd (x + y))"
| "fadd NaN b = NaN"
| "fadd a NaN = NaN"
| "fadd PInf NInf = NaN"
| "fadd NInf PInf = NaN"
| "fadd PInf b = PInf"
| "fadd a PInf = PInf"
| "fadd NInf b = NInf"
| "fadd a NInf = NInf"

definition fsub :: "pyfloat \<Rightarrow> pyfloat \<Rightarrow> pyfloat" where
  "fsub a b = fadd a (fneg b)"

fun fdiv :: "pyfloat \<Rightarrow> real \<Rightarrow> pyfloat" where
  "fdiv (Fin x) n = to_float (rnd (x / n))"
| "fdiv PInf n = PInf"
| "fdiv NInf n = NInf"
| "fdiv NaN n = NaN"

fun fgt :: "pyfloat \<Rightarrow> pyfloat \<Rightarrow> bool" where
  "fgt (Fin x) (Fin y) = (y < x)"
| "fgt NaN b = False"
| "fgt a NaN = False"
| "fgt PInf PInf = False"
| "fgt PInf b = True"
| "fgt a PInf = False"
| "fgt NInf b = False"
| "fgt a NInf = True"

text \<open>
  \<open>x ** 2\<close> and \<open>x ** 0.5\<close> are \<open>float_pow\<close> of the interpreter. It answers NaN, the infinities,
  0 and 1 itself and hands every other base to \<open>pow\<close> of the C library: a negative base
  by its absolute value for the exponent 2, while for the exponent 0.5 a negative base
  gives a complex number, and the comparison of a complex length raises TypeError. The
  outcome of the call of \<open>pow\<close> with the range check that follows it is a parameter, the
  record \<open>libm\<close>: a finite float, or the exception raised.
\<close>

record libm =
  pow_2 :: "real \<Rightarrow> py_error + real"
  pow_half :: "real \<Rightarrow> py_error + real"

definition py_pow_2 :: "libm \<Rightarrow> pyfloat \<Rightarrow> py_error + pyfloat" where
  "py_pow_2 lm v =
     (case v of
        NaN \<Rightarrow> Inr NaN
      | PInf \<Rightarrow> Inr PInf
      | NInf \<Rightarrow> Inr PInf
      | Fin x \<Rightarrow> if x = 0 then Inr (Fin 0)
                 else if \<bar>x\<bar> = 1 then Inr (Fin 1)
                 else (case pow_2 lm \<bar>x\<bar> of Inl e \<Rightarrow> Inl e | Inr r \<Rightarrow> Inr (Fin r)))"

definition py_pow_half :: "libm \<Rightarrow> pyfloat \<Rightarrow> py_error + pyfloat" where
  "py_pow_half lm v =
     (case v of
        NaN \<Rightarrow> Inr NaN
      | PInf \<Rightarrow> Inr PInf
      | NInf \<Rightarrow> Inr PInf
      | Fin x \<Rightarrow> if x = 0 then Inr (Fin 0)
                 else if x < 0 then Inl TypeError
                 else if x = 1 then Inr (Fin 1)
                 else (case pow_half lm x of Inl e \<Rightarrow> Inl e | Inr r \<Rightarrow> Inr (Fin r)))"

text \<open>
  What is known of \<open>pow\<close>: its result is not negative, and the only exception is the
  OverflowError of a result out of range.
\<close>

definition libm_sane :: "libm \<Rightarrow> bool" where
  "libm_sane lm \<longleftrightarrow>
     (\<forall>x. case pow_2 lm x of Inl e \<Rightarrow> e = OverflowError | Inr r \<Rightarrow> 0 \<le> r) \<and>
     (\<forall>x. case pow_half lm x of Inl e \<Rightarrow> e = OverflowError | Inr r \<Rightarrow> 0 \<le> r)"

text \<open>A C library whose \<open>pow\<close> is rounded correctly.\<close>

definition range_check :: "real \<Rightarrow> py_error + real" where
  "range_check r = (if max_float < \<bar>r\<bar> then Inl OverflowError else Inr r)"

definition ieee_libm :: libm where
  "ieee_libm = \<lparr>pow_2 = (\<lambda>x. range_check (rnd (x * x))),
                 pow_half = (\<lambda>x. range_check (rnd (sqrt \<bar>x\<bar>)))\<rparr>"

section \<open>idealizeBeam\<close>

text \<open>
  \<open>calcLength\<close>: the three squares are taken from left to right, and the first that is
  out of range raises.
\<close>

definition calcLength :: "libm \<Rightarrow> fline \<Rightarrow> py_error + pyfloat" where
  "calcLength lm line =
     (case py_pow_2 lm (fsub (px (fst line)) (px (snd line))) of
        Inl e \<Rightarrow> Inl e
      | Inr a \<Rightarrow>
     (case py_pow_2 lm (fsub (py (fst line)) (py (snd line))) of
        Inl e \<Rightarrow> Inl e
      | Inr b \<Rightarrow>
     (case py_pow_2 lm (fsub (pz (fst line)) (pz (snd line))) of
        Inl e \<Rightarrow> Inl e
      | Inr c \<Rightarrow> py_pow_half lm (fadd (fadd a b) c))))"

definition calcMidPoint :: "line \<Rightarrow> fpoint" where
  "calcMidPoint line =
     (fdiv (fadd (Fin (px (fst line))) (Fin (px (snd line)))) 2,
      fdiv (fadd (Fin (py (fst line))) (Fin (py (snd line)))) 2,
      fdiv (fadd (Fin (pz (fst line))) (Fin (pz (snd line)))) 2)"

text \<open>The first loop: both endpoint elevations of every line, in order.\<close>

definition beam_zs :: "line list \<Rightarrow> real list" where
  "beam_zs elementLines =
     fold (\<lambda>line zs. (zs @ [pz (fst line)]) @ [pz (snd line)]) elementLines []"

text \<open>The second loop: the lines with both endpoints at \<open>z_max\<close>.\<close>

definition beam_topLines :: "real \<Rightarrow> line list \<Rightarrow> line list" where
  "beam_topLines z_max elementLines =
     fold (\<lambda>line topLines.
             if pz (fst line) = z_max \<and> pz (snd line) = z_max then topLines @ [line]
             else topLines) elementLines []"

definition origin_line :: fline where
  "origin_line = ((Fin 0, Fin 0, Fin 0), (Fin 0, Fin 0, Fin 0))"

text \<open>
  The comparison of the inner loop, on the line kept so far or the exception raised so
  far: the length of the candidate is computed first, then that of the line kept, and
  the candidate replaces the line only when its length is greater.
\<close>

definition keep_longer :: "libm \<Rightarrow> fline \<Rightarrow> py_error + fline \<Rightarrow> py_error + fline" where
  "keep_longer lm candidate acc =
     (case acc of
        Inl e \<Rightarrow> Inl e
      | Inr idealBeam \<Rightarrow>
          (case calcLength lm candidate of
             Inl e \<Rightarrow> Inl e
           | Inr lc \<Rightarrow>
               (case calcLength lm idealBeam of
                  Inl e \<Rightarrow> Inl e
                | Inr li \<Rightarrow> Inr (if fgt lc li then candidate else idealBeam))))"

text \<open>The body of the inner loop, for the indices \<open>i\<close> and \<open>j\<close>.\<close>

definition beam_step :: "libm \<Rightarrow> line list \<Rightarrow> nat \<Rightarrow> nat \<Rightarrow> py_error + fline \<Rightarrow> py_error + fline" where
  "beam_step lm topLines i j acc =
     keep_longer lm (calcMidPoint (topLines ! i), calcMidPoint (topLines ! j)) acc"

text \<open>The nested loops over \<open>range(len(topLines))\<close> and \<open>range(i, len(topLines))\<close>.\<close>

definition beam_search :: "libm \<Rightarrow> line list \<Rightarrow> py_error + fline \<Rightarrow> py_error + fline" where
  "beam_search lm topLines acc =
     fold (\<lambda>i ideal. fold (beam_step lm topLines i) [i..<length topLines] ideal)
          [0..<length topLines] acc"

definition idealizeBeam :: "libm \<Rightarrow> line list \<Rightarrow> py_error + fline" where
  "idealizeBeam lm elementLines =
     (case py_max (beam_zs elementLines) of
        Inl e \<Rightarrow> Inl e
      | Inr z_max \<Rightarrow> beam_search lm (beam_topLines z_max elementLines) (Inr origin_line))"

text \<open>The candidates the nested loops visit, in the order of the visit.\<close>

definition beam_candidates :: "line list \<Rightarrow> fline list" where
  "beam_candidates topLines =
     concat (map (\<lambda>i. map (\<lambda>j. (calcMidPoint (topLines ! i), calcMidPoint (topLines ! j)))
                           [i..<length topLines])
                 [0..<length topLines])"

text \<open>
  The words of the specification for the beam: \<open>z_max\<close> is the greatest elevation of an
  endpoint, and the top lines are the segments with both endpoints at \<open>z_max\<close>. A list of
  lines is of floats when every coordinate is a finite binary64 number.
\<close>

definition z_max_of :: "line list \<Rightarrow> real" where
  "z_max_of ls = Max (pz ` (fst ` set ls \<union> snd ` set ls))"

definition top_lines :: "line list \<Rightarrow> line list" where
  "top_lines ls = filter (\<lambda>line. pz (fst line) = z_max_of ls \<and> pz (snd line) = z_max_of ls) ls"

definition is_float :: "real \<Rightarrow> bool" where
  "is_float x \<longleftrightarrow> rnd x = x \<and> \<bar>x\<bar> \<le> max_float"

definition float_point :: "point \<Rightarrow> bool" where
  "float_point p \<longleftrightarrow> is_float (px p) \<and> is_float (py p) \<and> is_float (pz p)"

definition float_lines :: "line list \<Rightarrow> bool" where
  "float_lines ls = list_all (\<lambda>line. float_point (fst line) \<and> float_point (snd line)) ls"

section \<open>idealizeColumn\<close>

text \<open>
  \<open>calcAvgPoint\<close>: the three sums start at 0 and take, line by line, the sum of the two
  endpoints; every addition rounds. The division by \<open>len(lines)*2\<close> raises
  ZeroDivisionError when the list is empty.
\<close>

definition calcAvgPoint :: "line list \<Rightarrow> py_error + fpoint" where
  "calcAvgPoint lines =
     (case fold (\<lambda>line (x_avg, y_avg, z_avg).
                   (fadd x_avg (fadd (Fin (px (fst line))) (Fin (px (snd line)))),
                    fadd y_avg (fadd (Fin (py (fst line))) (Fin (py (snd line)))),
                    fadd z_avg (fadd (Fin (pz (fst line))) (Fin (pz (snd line))))))
                lines (Fin 0, Fin 0, Fin 0) of
        (x_avg, y_avg, z_avg) \<Rightarrow>
          if length lines * 2 = 0 then Inl ZeroDivisionError
          else Inr (fdiv x_avg (real (length lines * 2)),
                    fdiv y_avg (real (length lines * 2)),
                    fdiv z_avg (real (length lines * 2))))"

text \<open>The first loop of \<open>idealizeColumn\<close>, on the pair \<open>(zs, interestingLines)\<close>.\<close>

definition column_scan :: "line list \<Rightarrow> real list \<times> line list" where
  "column_scan elementLines =
     fold (\<lambda>line (zs, interestingLines).
             if pz (fst line) = pz (snd line)
             then (if pz (fst line) \<in> set zs then zs else zs @ [pz (fst line)],
                   interestingLines @ [line])
             else (zs, interestingLines)) elementLines ([], [])"

text \<open>
  The second loop, on the pair \<open>(topLines, bottomLines)\<close>; \<open>max(zs)\<close> is evaluated in
  every iteration.
\<close>

definition column_partition :: "real list \<Rightarrow> line list \<Rightarrow> py_error + (line list \<times> line list)" where
  "column_partition zs interestingLines =
     fold (\<lambda>line acc.
             case acc of Inl e \<Rightarrow> Inl e
             | Inr (topLines, bottomLines) \<Rightarrow>
                 (case py_max zs of Inl e \<Rightarrow> Inl e
                  | Inr m \<Rightarrow> if pz (fst line) = m then Inr (topLines @ [line], bottomLines)
                             else Inr (topLines, bottomLines @ [line])))
          interestingLines (Inr ([], []))"

definition idealizeColumn :: "line list \<Rightarrow> py_error + fline" where
  "idealizeColumn elementLines =
     (case column_scan elementLines of
        (zs, interestingLines) \<Rightarrow>
          (case column_partition zs interestingLines of
             Inl e \<Rightarrow> Inl e
           | Inr (topLines, bottomLines) \<Rightarrow>
               (case calcAvgPoint bottomLines of
                  Inl e \<Rightarrow> Inl e
                | Inr b \<Rightarrow> (case calcAvgPoint topLines of
                              Inl e \<Rightarrow> Inl e
                            | Inr t \<Rightarrow> Inr (b, t)))))"

text \<open>
  The words of the specification for the column: the horizontal segments, the top
  partition at the greatest elevation of a horizontal segment, the bottom partition with
  every other horizontal segment, and the mean of the endpoints of a partition, two
  samples for each segment. The float average of a coordinate adds, line after line and
  rounding at each step, the float sum of the two endpoints to the total, and divides the
  total by the number of samples.
\<close>

definition horizontal_segments :: "line list \<Rightarrow> line list" where
  "horizontal_segments ls = filter (\<lambda>line. pz (fst line) = pz (snd line)) ls"

definition top_level :: "line list \<Rightarrow> real" where
  "top_level ls = Max (set (map (\<lambda>line. pz (fst line)) (horizontal_segments ls)))"

definition top_partition :: "line list \<Rightarrow> line list" where
  "top_partition ls = filter (\<lambda>line. pz (fst line) = top_level ls) (horizontal_segments ls)"

definition bottom_partition :: "line list \<Rightarrow> line list" where
  "bottom_partition ls = filter (\<lambda>line. pz (fst line) \<noteq> top_level ls) (horizontal_segments ls)"

definition endpoints :: "line list \<Rightarrow> point list" where
  "endpoints ls = concat (map (\<lambda>line. [fst line, snd line]) ls)"

definition mean_point :: "point list \<Rightarrow> point" where
  "mean_point ps =
     (sum_list (map px ps) / real (length ps),
      sum_list (map py ps) / real (length ps),
      sum_list (map pz ps) / real (length ps))"

definition float_average :: "(point \<Rightarrow> real) \<Rightarrow> line list \<Rightarrow> pyfloat" where
  "float_average coord ls =
     fdiv (foldl fadd (Fin 0) (map (\<lambda>line. fadd (Fin (coord (fst line))) (Fin (coord (snd line)))) ls))
          (real (length (endpoints ls)))"

definition float_average_point :: "line list \<Rightarrow> fpoint" where
  "float_average_point ls = (float_average px ls, float_average py ls, float_average pz ls)"

text \<open>
  A point of reals rounded to floats, coordinate by coordinate. A list of lines has small
  integers when every coordinate is an integer of a magnitude below \<open>2\<^sup>5\<^sup>3\<close> divided by
  the number of endpoints: then no sum of coordinates of endpoints rounds.
\<close>

definition round_point :: "point \<Rightarrow> fpoint" where
  "round_point p = (to_float (rnd (px p)), to_float (rnd (py p)), to_float (rnd (pz p)))"

definition small_integers :: "line list \<Rightarrow> bool" where
  "small_integers ls =
     list_all (\<lambda>line. list_all (\<lambda>c. c \<in> \<int> \<and> \<bar>c\<bar> * real (length (endpoints ls)) < 2 ^ 53)
                               [px (fst line), py (fst line), pz (fst line),
                                px (snd line), py (snd line), pz (snd line)]) ls"

section \<open>abstract_elements_by_type\<close>

text \<open>
  Indexing a Python sequence with an integer: a negative index counts from the end, and
  an index outside \<open>[-len, len)\<close> raises IndexError.
\<close>

definition py_index :: "'a list \<Rightarrow> int \<Rightarrow> py_error + 'a" where
  "py_index xs i =
     (if 0 \<le> i \<and> i < int (length xs) then Inr (xs ! nat i)
      else if - int (length xs) \<le> i \<and> i < 0 then Inr (xs ! nat (int (length xs) + i))
      else Inl IndexError)"

text \<open>
  \<open>points\<close> and \<open>line_points\<close>: the slices \<open>[i*3:i*3+3]\<close> and \<open>[i*2:i*2+2]\<close> for
  \<open>i < len // 3\<close> and \<open>i < len // 2\<close> lie inside the buffer, so each is a full tuple.
\<close>

definition mesh_points :: "real list \<Rightarrow> point list" where
  "mesh_points vs = map (\<lambda>i. (vs ! (i * 3), vs ! (i * 3 + 1), vs ! (i * 3 + 2))) [0..<length vs div 3]"

definition mesh_line_points :: "int list \<Rightarrow> (int \<times> int) list" where
  "mesh_line_points es = map (\<lambda>i. (es ! (i * 2), es ! (i * 2 + 1))) [0..<length es div 2]"

definition resolve_line :: "point list \<Rightarrow> int \<times> int \<Rightarrow> py_error + line" where
  "resolve_line points lp =
     (case py_index points (fst lp) of
        Inl e \<Rightarrow> Inl e
      | Inr p \<Rightarrow> (case py_index points (snd lp) of Inl e \<Rightarrow> Inl e | Inr q \<Rightarrow> Inr (p, q)))"

text \<open>The comprehension that builds \<open>lines\<close>: it stops at the first index that raises.\<close>

fun resolve_lines :: "point list \<Rightarrow> (int \<times> int) list \<Rightarrow> py_error + line list" where
  "resolve_lines points [] = Inr []"
| "resolve_lines points (lp # rest) =
     (case resolve_line points lp of
        Inl e \<Rightarrow> Inl e
      | Inr l \<Rightarrow> (case resolve_lines points rest of Inl e \<Rightarrow> Inl e | Inr ls \<Rightarrow> Inr (l # ls)))"

text \<open>
  \<open>list(set(line_points))\<close> keeps each index pair once, in an order that the language
  does not fix. The order is the parameter \<open>order\<close>; \<open>set_order\<close> says what is known of it.
  \<open>remdups\<close> is one such order.
\<close>

definition set_order :: "((int \<times> int) list \<Rightarrow> (int \<times> int) list) \<Rightarrow> bool" where
  "set_order order \<longleftrightarrow> (\<forall>xs. distinct (order xs) \<and> set (order xs) = set xs)"

text \<open>The body of the loop of \<open>abstract_elements_by_type\<close>, for the buffers of one element.\<close>

definition element_lines ::
  "((int \<times> int) list \<Rightarrow> (int \<times> int) list) \<Rightarrow> real list \<Rightarrow> int list \<Rightarrow> py_error + line list" where
  "element_lines order vs es = resolve_lines (mesh_points vs) (order (mesh_line_points es))"

text \<open>
  Names for the statements about the decoder: an index that Python accepts and the element
  it selects, the line an index pair resolves to, the flat edge buffer of a list of index
  pairs, the indices that are valid for \<open>n\<close> points, and the segments of a result as a
  multiset, which counts how often each segment occurs.
\<close>

definition index_ok :: "'a list \<Rightarrow> int \<Rightarrow> bool" where
  "index_ok xs i \<longleftrightarrow> - int (length xs) \<le> i \<and> i < int (length xs)"

definition at_index :: "'a list \<Rightarrow> int \<Rightarrow> 'a" where
  "at_index xs i = xs ! nat (if i < 0 then int (length xs) + i else i)"

definition resolved :: "point list \<Rightarrow> int \<times> int \<Rightarrow> line" where
  "resolved points lp = (at_index points (fst lp), at_index points (snd lp))"

definition edge_buffer :: "(int \<times> int) list \<Rightarrow> int list" where
  "edge_buffer ps = concat (map (\<lambda>p. [fst p, snd p]) ps)"

definition segment_mset :: "py_error + line list \<Rightarrow> py_error + line multiset" where
  "segment_mset r = (case r of Inl e \<Rightarrow> Inl e | Inr ls \<Rightarrow> Inr (mset ls))"

definition valid_indices :: "nat \<Rightarrow> (int \<times> int) list \<Rightarrow> bool" where
  "valid_indices n ps =
     list_all (\<lambda>lp. 0 \<le> fst lp \<and> fst lp < int n \<and> 0 \<le> snd lp \<and> snd lp < int n) ps"

text \<open>
  A dictionary is an association list in insertion order; \<open>AList.update\<close> is the
  assignment \<open>d[k] = v\<close>. The tag of an element is a string or None.
\<close>

record ifc_values =
  vertices :: "(string \<times> real list) list"
  edges :: "(string \<times> int list) list"
  elements :: "(string \<times> string option) list"

definition str_tag :: "string option \<Rightarrow> string" where
  "str_tag t = (case t of None \<Rightarrow> ''None'' | Some s \<Rightarrow> s)"

definition abstract_elements_by_type ::
  "((int \<times> int) list \<Rightarrow> (int \<times> int) list) \<Rightarrow> ifc_values \<Rightarrow> py_error + (string \<times> line list) list" where
  "abstract_elements_by_type order iv =
     fold (\<lambda>(key, tag) acc.
             case acc of Inl e \<Rightarrow> Inl e
             | Inr lines_for_type \<Rightarrow>
                 (case map_of (vertices iv) key of None \<Rightarrow> Inl KeyError
                  | Some vs \<Rightarrow>
                 (case map_of (edges iv) key of None \<Rightarrow> Inl KeyError
                  | Some es \<Rightarrow>
                 (case element_lines order vs es of Inl e \<Rightarrow> Inl e
                  | Inr lines \<Rightarrow>
                      Inr (AList.update (''UUID: '' @ key @ '' Tag:'' @ str_tag tag) lines
                             lines_for_type)))))
          (elements iv) (Inr [])"

section \<open>writeLines\<close>

text \<open>\<open>str.replace\<close>: the occurrences of \<open>old\<close> are replaced from the left, without overlap.\<close>

function replace_ne :: "string \<Rightarrow> string \<Rightarrow> string \<Rightarrow> string" where
  "replace_ne old new [] = []"
| "replace_ne old new (c # cs) =
     (if old \<noteq> [] \<and> take (length old) (c # cs) = old
      then new @ replace_ne old new (drop (length old) (c # cs))
      else c # replace_ne old new cs)"
  by pat_completeness auto
termination
  by (relation "measure (\<lambda>(old, new, s). length s)") auto

definition replace :: "string \<Rightarrow> string \<Rightarrow> string \<Rightarrow> string" where
  "replace s old new =
     (if old = [] then new @ concat (map (\<lambda>c. c # new) s) else replace_ne old new s)"

text \<open>
  \<open>str\<close> of a tuple of three coordinates and of a line; \<open>str_coord\<close> is \<open>repr\<close> on
  the coordinates.
\<close>

definition str_point :: "('a \<Rightarrow> string) \<Rightarrow> 'a \<times> 'a \<times> 'a \<Rightarrow> string" where
  "str_point str_coord p =
     ''('' @ str_coord (fst p) @ '', '' @ str_coord (fst (snd p)) @ '', ''
       @ str_coord (snd (snd p)) @ '')''"

definition str_line :: "('a \<Rightarrow> string) \<Rightarrow> ('a \<times> 'a \<times> 'a) \<times> ('a \<times> 'a \<times> 'a) \<Rightarrow> string" where
  "str_line str_coord l =
     ''('' @ str_point str_coord (fst l) @ '', '' @ str_point str_coord (snd l) @ '')''"

definition newline :: string where
  "newline = [CHR 0x0A]"

text \<open>The body of the loop of \<open>writeLines\<close>: the text written for one line.\<close>

definition line_text :: "('a \<Rightarrow> string) \<Rightarrow> ('a \<times> 'a \<times> 'a) \<times> ('a \<times> 'a \<times> 'a) \<Rightarrow> string" where
  "line_text str_coord point =
     (let p_str = replace (str_line str_coord point) '' '' '''';
          p_str = ''line '' @ p_str @ '' '' @ newline;
          p_str = replace p_str ''),('' '' '';
          p_str = replace p_str ''('' '''';
          p_str = replace p_str '')'' ''''
      in p_str)"

text \<open>A rendering of a coordinate with no space and no parenthesis, as that of a number.\<close>

definition plain :: "string \<Rightarrow> bool" where
  "plain s \<longleftrightarrow> CHR '' '' \<notin> set s \<and> CHR ''('' \<notin> set s \<and> CHR '')'' \<notin> set s"

datatype file_mode = Mode_w | Mode_a

text \<open>
  The files are a map from file name to content. Mode \<open>w\<close> truncates, mode \<open>a\<close>
  appends to the content, and a file that does not exist is created. The message printed
  on the standard output is not modelled.
\<close>

definition open_file :: "string \<Rightarrow> file_mode \<Rightarrow> (string \<rightharpoonup> string) \<Rightarrow> string" where
  "open_file file_name mode fs =
     (case mode of Mode_w \<Rightarrow> [] | Mode_a \<Rightarrow> (case fs file_name of None \<Rightarrow> [] | Some old \<Rightarrow> old))"

definition writeLines ::
  "('a \<Rightarrow> string) \<Rightarrow> (('a \<times> 'a \<times> 'a) \<times> ('a \<times> 'a \<times> 'a)) list \<Rightarrow> string \<Rightarrow> file_mode
     \<Rightarrow> (string \<rightharpoonup> string) \<Rightarrow> (string \<rightharpoonup> string)" where
  "writeLines str_coord lines file_name mode fs =
     fs(file_name \<mapsto>
          open_file file_name mode fs
          @ ''zoom -100,-100,-100 -200,-200,-200'' @ newline
          @ concat (map (line_text str_coord) lines)
          @ ''zoom a'' @ newline)"

text \<open>\<open>str\<close> of a Python int, for lines with integer coordinates.\<close>

function str_nat :: "nat \<Rightarrow> string" where
  "str_nat n = (if n < 10 then [''0123456789'' ! n] else str_nat (n div 10) @ [''0123456789'' ! (n mod 10)])"
  by pat_completeness auto
termination
  by (relation "measure id") auto

definition str_int :: "int \<Rightarrow> string" where
  "str_int i = (if i < 0 then ''-'' @ str_nat (nat (- i)) else str_nat (nat i))"

section \<open>read_geom and process_file\<close>

text \<open>
  The geometry kernel is the parameter \<open>by_type\<close>: for an element type, the entities of
  the file in order, each with its id \<open>ifc_entity[0]\<close>, the vertex and edge buffers of its
  shape and its tag \<open>ifc_entity[7]\<close>.
\<close>

definition read_geom ::
  "(string \<Rightarrow> (string \<times> real list \<times> int list \<times> string option) list) \<Rightarrow> string list
     \<Rightarrow> (string \<times> ifc_values) list" where
  "read_geom by_type ObjTypes =
     fold (\<lambda>ObjType objects_geometry.
             AList.update ObjType
               (fold (\<lambda>(gid, vs, es, tag) iv.
                        iv\<lparr>vertices := AList.update gid vs (vertices iv),
                           edges := AList.update gid es (edges iv),
                           elements := AList.update gid tag (elements iv)\<rparr>)
                     (by_type ObjType) \<lparr>vertices = [], edges = [], elements = []\<rparr>)
               objects_geometry)
          ObjTypes []"

text \<open>
  \<open>str\<close> of a float: \<open>str_coord\<close> renders a finite float; the infinities and NaN are
  \<open>inf\<close>, \<open>-inf\<close> and \<open>nan\<close>.
\<close>

definition str_float :: "(real \<Rightarrow> string) \<Rightarrow> pyfloat \<Rightarrow> string" where
  "str_float str_coord v =
     (case v of Fin x \<Rightarrow> str_coord x | PInf \<Rightarrow> ''inf'' | NInf \<Rightarrow> ''-inf'' | NaN \<Rightarrow> ''nan'')"

text \<open>
  The two loops of \<open>process_file\<close>, on the files and the exception raised so far, if any:
  an exception ends the run and leaves the files as they are at that moment.
\<close>

definition export_elements ::
  "(real \<Rightarrow> string) \<Rightarrow> (line list \<Rightarrow> py_error + fline) \<Rightarrow> string \<Rightarrow> string
     \<Rightarrow> (string \<times> line list) list \<Rightarrow> (string \<rightharpoonup> string) \<times> py_error option
     \<Rightarrow> (string \<rightharpoonup> string) \<times> py_error option" where
  "export_elements str_coord idealize output_elem_filename output_ideal_filename elems st =
     fold (\<lambda>(key, lines) (fs, err).
             case err of Some e \<Rightarrow> (fs, Some e)
             | None \<Rightarrow>
                 (let fs1 = writeLines str_coord lines output_elem_filename Mode_a fs
                  in case idealize lines of
                       Inl e \<Rightarrow> (fs1, Some e)
                     | Inr ideal \<Rightarrow>
                         (writeLines (str_float str_coord) [ideal] output_ideal_filename Mode_a fs1,
                          None)))
          elems st"

definition lookup_key :: "(string \<times> 'v) list \<Rightarrow> string \<Rightarrow> py_error + 'v" where
  "lookup_key d k = (case map_of d k of None \<Rightarrow> Inl KeyError | Some v \<Rightarrow> Inr v)"

definition process_file ::
  "libm \<Rightarrow> (string \<Rightarrow> (string \<times> real list \<times> int list \<times> string option) list)
     \<Rightarrow> ((int \<times> int) list \<Rightarrow> (int \<times> int) list) \<Rightarrow> (real \<Rightarrow> string)
     \<Rightarrow> string \<Rightarrow> string \<Rightarrow> (string \<rightharpoonup> string) \<Rightarrow> (string \<rightharpoonup> string) \<times> py_error option" where
  "process_file lm by_type order str_coord output_elem_filename output_ideal_filename fs =
     (let geometry = read_geom by_type [''IfcBeam'', ''IfcColumn'']
      in case lookup_key geometry ''IfcBeam'' of Inl e \<Rightarrow> (fs, Some e)
         | Inr ifc_beams \<Rightarrow>
        (case lookup_key geometry ''IfcColumn'' of Inl e \<Rightarrow> (fs, Some e)
         | Inr ifc_columns \<Rightarrow>
        (case abstract_elements_by_type order ifc_beams of Inl e \<Rightarrow> (fs, Some e)
         | Inr beams \<Rightarrow>
        (case abstract_elements_by_type order ifc_columns of Inl e \<Rightarrow> (fs, Some e)
         | Inr columns \<Rightarrow>
            (let fs1 = fs(output_elem_filename \<mapsto> []);
                 fs2 = fs1(output_ideal_filename \<mapsto> [])
             in export_elements str_coord idealizeColumn output_elem_filename
                  output_ideal_filename columns
                  (export_elements str_coord (idealizeBeam lm) output_elem_filename
                     output_ideal_filename beams (fs2, None)))))))"

text \<open>A geometry kernel that finds no element of any type.\<close>

definition empty_kernel :: "string \<Rightarrow> (string \<times> real list \<times> int list \<times> string option) list" where
  "empty_kernel ObjType = []"

section \<open>Facts on float arithmetic\<close>

lemma round_half_even_int: "round_half_even (of_int n) = n"
  by (simp add: round_half_even_def)

lemma round_half_even_nonneg: "0 \<le> r \<Longrightarrow> 0 \<le> round_half_even r"
  by (auto simp: round_half_even_def Let_def)

lemma round_half_even_tie: "round_half_even (of_int n + 1/2) = (if even n then n else n + 1)"
proof -
  have "\<lfloor>of_int n + (1/2::real)\<rfloor> = n" by linarith
  then show ?thesis by (simp add: round_half_even_def Let_def)
qed

lemma floor_log2_less:
  assumes "0 < a" and "a < 2 powr of_int k"
  shows "\<lfloor>log 2 a\<rfloor> < k"
proof -
  have "log 2 a < of_int k" using assms by (simp add: log_less_iff)
  then show ?thesis by (simp add: floor_less_iff)
qed

lemma rnd_exact:
  assumes m: "\<bar>m\<bar> < 2 ^ 53" and i: "- 1074 \<le> i"
  shows "rnd (of_int m * 2 powr of_int i) = of_int m * 2 powr of_int i"
proof (cases "m = 0")
  case True then show ?thesis by (simp add: rnd_def)
next
  case False
  let ?x = "of_int m * 2 powr of_int i :: real"
  let ?q = "ulp_exp ?x"
  have x0: "?x \<noteq> 0" using False by simp
  have absx: "\<bar>?x\<bar> = of_int \<bar>m\<bar> * 2 powr of_int i" by (simp add: abs_mult)
  have pos: "0 < \<bar>?x\<bar>" using x0 by simp
  have "of_int \<bar>m\<bar> < (2::real) ^ 53" using m by (metis of_int_less_numeral_power_cancel_iff)
  then have "\<bar>?x\<bar> < 2 ^ 53 * 2 powr of_int i" unfolding absx by simp
  also have "\<dots> = 2 powr of_int (53 + i)" by (simp add: powr_add powr_numeral)
  finally have "\<lfloor>log 2 \<bar>?x\<bar>\<rfloor> < 53 + i" using pos by (intro floor_log2_less)
  then have qi: "?q \<le> i" using i by (simp add: ulp_exp_def)
  define d where "d = nat (i - ?q)"
  have iq: "i = ?q + int d" using qi by (simp add: d_def)
  have pw: "2 powr of_int i = 2 powr of_int ?q * (2::real) ^ d"
    by (subst iq) (simp add: powr_add powr_realpow)
  moreover have "2 powr of_int ?q \<noteq> (0::real)" by simp
  ultimately have div: "?x / 2 powr of_int ?q = of_int (m * 2 ^ d)"
    by (simp only: of_int_mult of_int_power of_int_numeral) (simp add: field_simps)
  have "rnd ?x = of_int (round_half_even (?x / 2 powr of_int ?q)) * 2 powr of_int ?q"
    using x0 by (simp only: rnd_def if_False)
  also have "\<dots> = of_int (m * 2 ^ d) * 2 powr of_int ?q" unfolding div round_half_even_int ..
  also have "\<dots> = of_int m * (2 powr of_int ?q * 2 ^ d)" by simp
  also have "\<dots> = ?x" by (simp only: pw [symmetric])
  finally show ?thesis .
qed

lemma rnd_0: "rnd 0 = 0"
  by (simp add: rnd_def)

lemma rnd_of_int: "\<bar>n\<bar> < 2 ^ 53 \<Longrightarrow> rnd (of_int n) = of_int n"
  using rnd_exact [of n 0] by simp

lemma rnd_int_pow2: "\<bar>m\<bar> < 2 ^ 53 \<Longrightarrow> rnd (of_int m * 2 ^ k) = of_int m * 2 ^ k"
  using rnd_exact [of m "int k"] by (simp add: powr_realpow)

lemma rnd_numeral: "numeral k < (2::int) ^ 53 \<Longrightarrow> rnd (numeral k) = numeral k"
  using rnd_of_int [of "numeral k"] by simp

lemma rnd_neg_numeral: "numeral k < (2::int) ^ 53 \<Longrightarrow> rnd (- numeral k) = - numeral k"
  using rnd_of_int [of "- numeral k"] by simp

lemma rnd_1: "rnd 1 = 1"
  using rnd_of_int [of 1] by simp

lemma rnd_neg_1: "rnd (- 1) = - 1"
  using rnd_of_int [of "- 1"] by simp

lemma rnd_pow2: "rnd (2 ^ k) = 2 ^ k"
  using rnd_int_pow2 [of 1 k] by simp

lemma rnd_neg_pow2: "rnd (- (2 ^ k)) = - (2 ^ k)"
  using rnd_int_pow2 [of "- 1" k] by simp

lemma rnd_nonneg: "0 \<le> x \<Longrightarrow> 0 \<le> rnd x"
  by (simp add: rnd_def round_half_even_nonneg)

lemma max_float_ge: "2 ^ 971 \<le> max_float"
  by (simp add: max_float_def)

lemma max_float_pos: "0 < max_float"
  by (simp add: max_float_def)

lemma to_float_Fin: "\<bar>r\<bar> \<le> max_float \<Longrightarrow> to_float r = Fin r"
  by (auto simp: to_float_def)

lemma small_max_float: "\<bar>r\<bar> \<le> 2 ^ 971 \<Longrightarrow> \<bar>r\<bar> \<le> max_float"
  using max_float_ge by linarith

lemma to_float_small: "\<bar>r\<bar> \<le> 2 ^ 971 \<Longrightarrow> to_float r = Fin r"
  by (simp add: to_float_Fin small_max_float)

lemma rnd_eval:
  assumes "2 ^ k \<le> \<bar>x\<bar>" and "\<bar>x\<bar> < 2 ^ (k + 1)"
  shows "rnd x = of_int (round_half_even (x / 2 powr (of_int (int k - 52))))
                   * 2 powr (of_int (int k - 52))"
proof -
  have "0 < (2::real) ^ k" by simp
  with assms(1) have pos: "0 < \<bar>x\<bar>" by linarith
  have "2 powr real_of_int (int k) \<le> \<bar>x\<bar> \<and> \<bar>x\<bar> < 2 powr real_of_int (int k + 1)"
    using assms by (simp add: powr_realpow powr_add)
  then have "\<lfloor>log 2 \<bar>x\<bar>\<rfloor> = int k"
    using floor_log_eq_powr_iff [of "\<bar>x\<bar>" 2 "int k"] pos by simp
  then have "ulp_exp x = int k - 52" by (simp add: ulp_exp_def)
  moreover have "x \<noteq> 0" using pos by simp
  ultimately show ?thesis by (simp add: rnd_def)
qed

lemma rnd_tie: "rnd (10000000000000001) = 10000000000000000"
proof -
  have "rnd (10000000000000001)
          = of_int (round_half_even (10000000000000001 / 2 powr (of_int (int 53 - 52))))
              * 2 powr (of_int (int 53 - 52))"
    by (rule rnd_eval) simp_all
  also have "(10000000000000001::real) / 2 powr (of_int (int 53 - 52))
               = of_int 5000000000000000 + 1/2" by simp
  also have "round_half_even (of_int 5000000000000000 + 1/2) = 5000000000000000"
    by (simp only: round_half_even_tie) simp
  finally show ?thesis by simp
qed

lemma rnd_double:
  assumes "rnd x = x"
  shows "rnd (2 * x) = 2 * x"
proof (cases "x = 0")
  case True then show ?thesis by (simp add: rnd_0)
next
  case False
  let ?e = "\<lfloor>log 2 \<bar>x\<bar>\<rfloor>"
  have pos: "0 < \<bar>x\<bar>" using False by simp
  have "log 2 \<bar>2 * x\<bar> = 1 + log 2 \<bar>x\<bar>"
    using pos by (simp add: abs_mult log_mult)
  then have fl: "\<lfloor>log 2 \<bar>2 * x\<bar>\<rfloor> = ?e + 1" by simp
  have x2: "2 * x \<noteq> 0" using False by simp
  show ?thesis
  proof (cases "- 1022 \<le> ?e")
    case True
    then have q: "ulp_exp (2 * x) = ulp_exp x + 1" by (simp add: ulp_exp_def fl)
    have pw: "2 powr of_int (ulp_exp x + 1) = 2 * (2::real) powr of_int (ulp_exp x)"
      by (simp add: powr_add)
    have "rnd (2 * x) = of_int (round_half_even (2 * x / (2 * 2 powr of_int (ulp_exp x))))
                          * (2 * 2 powr of_int (ulp_exp x))"
      using x2 by (simp only: rnd_def q pw if_False)
    also have "2 * x / (2 * 2 powr of_int (ulp_exp x)) = x / 2 powr of_int (ulp_exp x)" by simp
    also have "of_int (round_half_even (x / 2 powr of_int (ulp_exp x))) * (2 * 2 powr of_int (ulp_exp x))
                 = 2 * rnd x" using False by (simp add: rnd_def)
    finally show ?thesis using assms by simp
  next
    case False
    then have "?e + 1 \<le> - 1022" and "?e \<le> - 1022" by linarith+
    then have "max (?e + 1) (- 1022) = - 1022" and "max ?e (- 1022) = - 1022"
      by (simp_all add: max_def)
    then have q: "ulp_exp (2 * x) = ulp_exp x" by (simp only: ulp_exp_def fl)
    let ?u = "2 powr of_int (ulp_exp x) :: real"
    let ?n = "round_half_even (x / ?u)"
    have xn: "x = of_int ?n * ?u" using assms \<open>x \<noteq> 0\<close> by (simp add: rnd_def)
    have u0: "?u \<noteq> 0" by simp
    have "x / ?u = of_int ?n" using xn u0 by (metis nonzero_mult_div_cancel_right)
    then have "2 * x / ?u = of_int (2 * ?n)" by simp
    then have "round_half_even (2 * x / ?u) = 2 * ?n" by (simp only: round_half_even_int)
    then have "rnd (2 * x) = of_int (2 * ?n) * ?u" using x2 by (simp only: rnd_def q if_False)
    also have "\<dots> = 2 * (of_int ?n * ?u)" by simp
    also have "\<dots> = 2 * x" using xn by simp
    finally show ?thesis .
  qed
qed

lemma fgt_irrefl: "\<not> fgt a a"
  by (cases a) simp_all

lemma fgt_trans: "fgt a b \<Longrightarrow> fgt b c \<Longrightarrow> fgt a c"
  by (cases a; cases b; cases c) simp_all

lemma fgt_not_trans: "\<not> fgt a b \<Longrightarrow> fgt c b \<Longrightarrow> \<not> fgt a c"
  by (cases a; cases b; cases c) simp_all

lemma fgt_NaN: "\<not> fgt NaN b" "\<not> fgt a NaN"
  by (cases b, simp_all) (cases a, simp_all)

lemma libm_sane_ieee: "libm_sane ieee_libm"
  by (simp add: libm_sane_def ieee_libm_def range_check_def rnd_nonneg)

lemma fadd_NaN: "fadd a NaN = NaN" "fadd NaN b = NaN"
  by (cases a, simp_all) 

lemma fsub_Fin: "fsub (Fin x) (Fin y) = to_float (rnd (x - y))"
  by (simp add: fsub_def)

lemma fsub_same_inf: "v = PInf \<or> v = NInf \<Longrightarrow> fsub v v = NaN"
  by (auto simp: fsub_def)

lemma to_float_0: "to_float 0 = Fin 0"
  by (simp add: to_float_small)

lemma libm_pow_2_Inl: "libm_sane lm \<Longrightarrow> pow_2 lm x = Inl e \<Longrightarrow> e = OverflowError"
  unfolding libm_sane_def by (metis old.sum.simps(5))

lemma libm_pow_2_Inr: "libm_sane lm \<Longrightarrow> pow_2 lm x = Inr r \<Longrightarrow> 0 \<le> r"
  unfolding libm_sane_def by (metis old.sum.simps(6))

lemma libm_pow_half_Inl: "libm_sane lm \<Longrightarrow> pow_half lm x = Inl e \<Longrightarrow> e = OverflowError"
  unfolding libm_sane_def by (metis old.sum.simps(5))

lemma libm_pow_half_Inr: "libm_sane lm \<Longrightarrow> pow_half lm x = Inr r \<Longrightarrow> 0 \<le> r"
  unfolding libm_sane_def by (metis old.sum.simps(6))

lemma py_pow_2_Inl: "libm_sane lm \<Longrightarrow> py_pow_2 lm v = Inl e \<Longrightarrow> e = OverflowError"
  by (auto simp: py_pow_2_def dest: libm_pow_2_Inl split: pyfloat.splits if_splits sum.splits)

lemma py_pow_2_Inr:
  "libm_sane lm \<Longrightarrow> py_pow_2 lm v = Inr w \<Longrightarrow> w \<noteq> NInf \<and> (\<forall>x. w = Fin x \<longrightarrow> 0 \<le> x)"
  by (auto simp: py_pow_2_def dest: libm_pow_2_Inr split: pyfloat.splits if_splits sum.splits)

lemma to_float_nonneg: "0 \<le> r \<Longrightarrow> to_float r \<noteq> NInf \<and> (\<forall>x. to_float r = Fin x \<longrightarrow> 0 \<le> x)"
  using max_float_pos by (auto simp: to_float_def)

lemma fadd_nonneg:
  assumes "a \<noteq> NInf \<and> (\<forall>x. a = Fin x \<longrightarrow> 0 \<le> x)" and "b \<noteq> NInf \<and> (\<forall>x. b = Fin x \<longrightarrow> 0 \<le> x)"
  shows "fadd a b \<noteq> NInf \<and> (\<forall>x. fadd a b = Fin x \<longrightarrow> 0 \<le> x)"
proof (cases a)
  case (Fin x)
  show ?thesis
  proof (cases b)
    case (Fin y)
    with \<open>a = Fin x\<close> assms have "0 \<le> x + y" by simp
    then have "0 \<le> rnd (x + y)" by (rule rnd_nonneg)
    then show ?thesis using \<open>a = Fin x\<close> Fin by (simp add: to_float_nonneg)
  qed (use \<open>a = Fin x\<close> assms in simp_all)
qed (use assms in \<open>cases b; simp\<close>)+

lemma py_pow_half_Inl:
  "libm_sane lm \<Longrightarrow> v \<noteq> NInf \<and> (\<forall>x. v = Fin x \<longrightarrow> 0 \<le> x) \<Longrightarrow> py_pow_half lm v = Inl e
     \<Longrightarrow> e = OverflowError"
  by (auto simp: py_pow_half_def dest: libm_pow_half_Inl split: pyfloat.splits if_splits sum.splits)

lemma calcLength_Inl:
  assumes "libm_sane lm" and "calcLength lm l = Inl e"
  shows "e = OverflowError"
proof -
  let ?a = "py_pow_2 lm (fsub (px (fst l)) (px (snd l)))"
  let ?b = "py_pow_2 lm (fsub (py (fst l)) (py (snd l)))"
  let ?c = "py_pow_2 lm (fsub (pz (fst l)) (pz (snd l)))"
  show ?thesis
  proof (cases ?a)
    case (Inl e1)
    then show ?thesis using assms py_pow_2_Inl [OF assms(1) Inl] by (simp add: calcLength_def)
  next
    case a: (Inr a)
    show ?thesis
    proof (cases ?b)
      case (Inl e1)
      then show ?thesis using assms a py_pow_2_Inl [OF assms(1) Inl] by (simp add: calcLength_def)
    next
      case b: (Inr b)
      show ?thesis
      proof (cases ?c)
        case (Inl e1)
        then show ?thesis using assms a b py_pow_2_Inl [OF assms(1) Inl]
          by (simp add: calcLength_def)
      next
        case c: (Inr c)
        have "fadd (fadd a b) c \<noteq> NInf \<and> (\<forall>x. fadd (fadd a b) c = Fin x \<longrightarrow> 0 \<le> x)"
          by (intro fadd_nonneg py_pow_2_Inr [OF assms(1) a] py_pow_2_Inr [OF assms(1) b]
              py_pow_2_Inr [OF assms(1) c])
        moreover have "py_pow_half lm (fadd (fadd a b) c) = Inl e"
          using assms(2) a b c by (simp add: calcLength_def)
        ultimately show ?thesis using assms(1) by (rule py_pow_half_Inl [rotated 1])
      qed
    qed
  qed
qed

lemma calcLength_origin: "calcLength lm origin_line = Inr (Fin 0)"
  by (simp add: calcLength_def origin_line_def px_def py_def pz_def fsub_Fin rnd_0 to_float_0
      py_pow_2_def py_pow_half_def)

lemma calcLength_inf_z:
  assumes "calcLength lm (p, q) = Inr lr" and "pz p = pz q" and "pz p = PInf \<or> pz p = NInf"
  shows "lr = NaN"
proof -
  have z: "fsub (pz p) (pz q) = NaN" using assms(2,3) fsub_same_inf [of "pz p"] by simp
  show ?thesis using assms(1)
    by (auto simp: calcLength_def z py_pow_2_def [of lm NaN] py_pow_half_def [of lm NaN] fadd_NaN
        split: sum.splits)
qed

lemma calcMidPoint_z:
  assumes "is_float z" and "pz (fst l) = z" and "pz (snd l) = z"
  shows "pz (calcMidPoint l) = Fin z \<or> pz (calcMidPoint l) = PInf \<or> pz (calcMidPoint l) = NInf"
proof -
  have r: "rnd z = z" and b: "\<bar>z\<bar> \<le> max_float" using assms(1) by (simp_all add: is_float_def)
  have "rnd (z + z) = z + z" using rnd_double [OF r] by simp
  then have s: "fadd (Fin z) (Fin z) = to_float (z + z)" by simp
  have "fdiv (Fin (z + z)) 2 = Fin z" using r b by (simp add: to_float_Fin)
  then have "fdiv (to_float (z + z)) 2 = Fin z \<or> fdiv (to_float (z + z)) 2 = PInf
       \<or> fdiv (to_float (z + z)) 2 = NInf"
    by (simp add: to_float_def)
  then show ?thesis using assms(2,3) s by (simp add: calcMidPoint_def pz_def)
qed

section \<open>Elementary facts\<close>

lemma py_max_Nil: "py_max [] = Inl ValueError"
  by (simp add: py_max_def)

lemma fold_max_ge: "m \<le> fold (\<lambda>item m. if item > m then item else m) zs (m::real)"
proof (induction zs arbitrary: m)
  case Nil
  show ?case by simp
next
  case (Cons z zs)
  have "m \<le> (if z > m then z else m)" by simp
  also have "\<dots> \<le> fold (\<lambda>item m. if item > m then item else m) zs (if z > m then z else m)"
    by (rule Cons.IH)
  finally show ?case by simp
qed

lemma Max_insert2: "finite S \<Longrightarrow> Max (insert a (insert b S)) = Max (insert (max a b) (S::real set))"
  by (cases "S = {}") (simp_all add: max.assoc)

lemma fold_max_eq: "fold (\<lambda>item m. if item > m then item else m) zs (m::real) = Max (set (m # zs))"
proof (induction zs arbitrary: m)
  case Nil
  show ?case by simp
next
  case (Cons z zs)
  have step: "(if z > m then z else m) = max m z" by (simp add: max_def)
  have "set (m # z # zs) = insert m (insert z (set zs))" by simp
  then have "Max (set (m # z # zs)) = Max (insert (max m z) (set zs))"
    using Max_insert2 [OF finite_set, of m z zs] by (simp only:)
  moreover have "fold (\<lambda>item m. if item > m then item else m) (z # zs) m
                   = Max (insert (max m z) (set zs))"
    using Cons.IH [of "max m z"] step by simp
  ultimately show ?case by (simp only:)
qed

lemma py_max_Cons: "py_max (z # zs) = Inr (Max (set (z # zs)))"
  by (simp add: py_max_def fold_max_eq)

lemma py_max_nonempty: "zs \<noteq> [] \<Longrightarrow> py_max zs = Inr (Max (set zs))"
  by (cases zs) (simp_all add: py_max_Cons del: set_simps)

lemma fold_zs_acc:
  "fold (\<lambda>line zs. zs @ [pz (fst line), pz (snd line)]) ls acc
     = acc @ concat (map (\<lambda>line. [pz (fst line), pz (snd line)]) ls)"
  by (induction ls arbitrary: acc) simp_all

lemma beam_zs_eq: "beam_zs ls = concat (map (\<lambda>line. [pz (fst line), pz (snd line)]) ls)"
  by (simp add: beam_zs_def fold_zs_acc)

lemma fold_top_acc:
  "fold (\<lambda>line topLines.
           if pz (fst line) = z \<and> pz (snd line) = z then topLines @ [line] else topLines) ls acc
     = acc @ filter (\<lambda>line. pz (fst line) = z \<and> pz (snd line) = z) ls"
  by (induction ls arbitrary: acc) simp_all

lemma beam_topLines_eq:
  "beam_topLines z ls = filter (\<lambda>line. pz (fst line) = z \<and> pz (snd line) = z) ls"
  by (simp add: beam_topLines_def fold_top_acc)

lemma beam_zs_empty_iff: "beam_zs ls = [] \<longleftrightarrow> ls = []"
  by (cases ls) (simp_all add: beam_zs_eq)

lemma set_beam_zs: "set (beam_zs ls) = (pz \<circ> fst) ` set ls \<union> (pz \<circ> snd) ` set ls"
  by (auto simp: beam_zs_eq)

lemma fold_map_comp: "fold f (map g xs) b = fold (\<lambda>x. f (g x)) xs b"
  by (simp add: fold_map comp_def)

lemma fold_concat_map: "fold f (concat (map g xs)) b = fold (\<lambda>x acc. fold f (g x) acc) xs b"
  by (induction xs arbitrary: b) simp_all
lemma mem_concat_upt:
  "c \<in> set (concat (map (\<lambda>i. map (f i) [i..<n]) [0..<n])) \<longleftrightarrow> (\<exists>i j. i \<le> j \<and> j < n \<and> c = f i j)"
proof
  assume "c \<in> set (concat (map (\<lambda>i. map (f i) [i..<n]) [0..<n]))"
  then obtain ys where ys: "ys \<in> set (map (\<lambda>i. map (f i) [i..<n]) [0..<n])" and c: "c \<in> set ys"
    by (auto simp only: set_concat)
  from ys obtain i where i: "i \<in> set [0..<n]" and ysi: "ys = map (f i) [i..<n]"
    by (auto simp only: set_map)
  from c ysi obtain j where j: "j \<in> set [i..<n]" and cj: "c = f i j"
    by (auto simp only: set_map)
  from j have "i \<le> j \<and> j < n" by simp
  with cj show "\<exists>i j. i \<le> j \<and> j < n \<and> c = f i j" by blast
next
  assume "\<exists>i j. i \<le> j \<and> j < n \<and> c = f i j"
  then obtain i j where ij: "i \<le> j" "j < n" and c: "c = f i j" by blast
  have "i \<in> set [0..<n]" using ij by simp
  then have "map (f i) [i..<n] \<in> set (map (\<lambda>i. map (f i) [i..<n]) [0..<n])"
    unfolding set_map by (rule imageI)
  moreover have "c \<in> set (map (f i) [i..<n])" using ij c by simp
  ultimately show "c \<in> set (concat (map (\<lambda>i. map (f i) [i..<n]) [0..<n]))"
    by (auto simp only: set_concat)
qed

lemma mem_beam_candidates:
  "c \<in> set (beam_candidates tops) \<longleftrightarrow>
     (\<exists>i j. i \<le> j \<and> j < length tops \<and> c = (calcMidPoint (tops ! i), calcMidPoint (tops ! j)))"
  unfolding beam_candidates_def by (rule mem_concat_upt)
lemma z_max_of_beam_zs: "Max (set (beam_zs ls)) = z_max_of ls"
  by (simp add: set_beam_zs z_max_of_def image_Un image_comp)

lemma beam_topLines_top_lines: "beam_topLines (Max (set (beam_zs ls))) ls = top_lines ls"
  by (simp add: beam_topLines_eq top_lines_def z_max_of_beam_zs)
lemma top_lines_mem: "l \<in> set (top_lines ls) \<Longrightarrow> l \<in> set ls \<and> pz (fst l) = z_max_of ls \<and> pz (snd l) = z_max_of ls"
  by (simp add: top_lines_def)

lemma beam_search_candidates:
  "beam_search lm tops acc = fold (keep_longer lm) (beam_candidates tops) acc"
  unfolding beam_search_def beam_candidates_def fold_concat_map fold_map_comp
  by (simp add: beam_step_def [abs_def])

lemma idealizeBeam_empty: "idealizeBeam lm [] = Inl ValueError"
  by (simp add: idealizeBeam_def beam_zs_def py_max_def)

lemma idealizeBeam_fold:
  "ls \<noteq> [] \<Longrightarrow>
   idealizeBeam lm ls = fold (keep_longer lm) (beam_candidates (top_lines ls)) (Inr origin_line)"
  by (simp add: idealizeBeam_def py_max_nonempty beam_zs_empty_iff beam_search_candidates
      beam_topLines_top_lines)

lemma fold_keep_Inl: "fold (keep_longer lm) cs (Inl e) = Inl e"
  by (induction cs) (simp_all add: keep_longer_def)

lemma keep_longer_Inr:
  "calcLength lm c = Inr lc \<Longrightarrow> calcLength lm b = Inr lb \<Longrightarrow>
   keep_longer lm c (Inr b) = Inr (if fgt lc lb then c else b)"
  by (simp add: keep_longer_def)

lemma keep_longer_Inl: "calcLength lm c = Inl e \<Longrightarrow> keep_longer lm c (Inr b) = Inl e"
  by (simp add: keep_longer_def)

lemma fold_keep_error:
  assumes "c \<in> set cs" and "calcLength lm c = Inl e" and "calcLength lm b = Inr lb"
  shows "\<exists>d\<in>set cs. \<exists>e'. calcLength lm d = Inl e' \<and> fold (keep_longer lm) cs (Inr b) = Inl e'"
  using assms
proof (induction cs arbitrary: b lb)
  case Nil
  then show ?case by simp
next
  case (Cons d cs)
  show ?case
  proof (cases "calcLength lm d")
    case (Inl e')
    then have "fold (keep_longer lm) (d # cs) (Inr b) = Inl e'"
      by (simp add: keep_longer_Inl fold_keep_Inl)
    with Inl show ?thesis by auto
  next
    case (Inr ld)
    let ?b = "if fgt ld lb then d else b"
    have k: "keep_longer lm d (Inr b) = Inr ?b" using Inr Cons.prems(3) by (rule keep_longer_Inr)
    have lb': "calcLength lm ?b = Inr (if fgt ld lb then ld else lb)"
      using Inr Cons.prems(3) by simp
    have "c \<noteq> d" using Inr Cons.prems(2) by auto
    then have "c \<in> set cs" using Cons.prems(1) by simp
    from Cons.IH [OF this Cons.prems(2) lb'] k show ?thesis by auto
  qed
qed

lemma fold_keep_success:
  assumes "\<forall>c\<in>set cs. \<exists>lc. calcLength lm c = Inr lc" and "calcLength lm b = Inr lb"
  shows "\<exists>r lr. fold (keep_longer lm) cs (Inr b) = Inr r \<and> calcLength lm r = Inr lr
           \<and> (r = b \<or> r \<in> set cs \<and> fgt lr lb) \<and> \<not> fgt lb lr
           \<and> (\<forall>c\<in>set cs. \<exists>lc. calcLength lm c = Inr lc \<and> \<not> fgt lc lr)"
  using assms
proof (induction cs arbitrary: b lb)
  case Nil
  then show ?case by (simp add: fgt_irrefl)
next
  case (Cons d cs)
  from Cons.prems(1) obtain ld where ld: "calcLength lm d = Inr ld" by auto
  let ?b = "if fgt ld lb then d else b"
  let ?lb = "if fgt ld lb then ld else lb"
  have k: "keep_longer lm d (Inr b) = Inr ?b" using ld Cons.prems(2) by (rule keep_longer_Inr)
  have lb': "calcLength lm ?b = Inr ?lb" using ld Cons.prems(2) by simp
  have all: "\<forall>c\<in>set cs. \<exists>lc. calcLength lm c = Inr lc" using Cons.prems(1) by simp
  from Cons.IH [OF all lb'] obtain r lr where
    r: "fold (keep_longer lm) cs (Inr ?b) = Inr r" and lr: "calcLength lm r = Inr lr"
    and sel: "r = ?b \<or> r \<in> set cs \<and> fgt lr ?lb" and ge: "\<not> fgt ?lb lr"
    and mx: "\<forall>c\<in>set cs. \<exists>lc. calcLength lm c = Inr lc \<and> \<not> fgt lc lr" by blast
  have res: "fold (keep_longer lm) (d # cs) (Inr b) = Inr r" using r k by simp
  have goal: "(r = b \<or> r \<in> set (d # cs) \<and> fgt lr lb) \<and> \<not> fgt lb lr \<and> \<not> fgt ld lr"
  proof (cases "fgt ld lb")
    case True
    from sel True have s: "r = d \<or> r \<in> set cs \<and> fgt lr ld" by simp
    from ge True have g: "\<not> fgt ld lr" by simp
    have 1: "r = b \<or> r \<in> set (d # cs) \<and> fgt lr lb"
      using s
    proof
      assume "r = d"
      then have "lr = ld" using lr ld by simp
      with True \<open>r = d\<close> show ?thesis by simp
    next
      assume a: "r \<in> set cs \<and> fgt lr ld"
      then have "fgt lr lb" using True by (blast intro: fgt_trans)
      with a show ?thesis by simp
    qed
    have 2: "\<not> fgt lb lr"
    proof
      assume "fgt lb lr"
      with True have "fgt ld lr" by (rule fgt_trans)
      with g show False by simp
    qed
    show ?thesis using 1 2 g by simp
  next
    case False
    from sel False have s: "r = b \<or> r \<in> set cs \<and> fgt lr lb" by simp
    from ge False have g: "\<not> fgt lb lr" by simp
    have 3: "\<not> fgt ld lr"
      using s
    proof
      assume "r = b"
      then have "lr = lb" using lr Cons.prems(2) by simp
      with False show ?thesis by simp
    next
      assume "r \<in> set cs \<and> fgt lr lb"
      then have "fgt lr lb" by simp
      with False show ?thesis by (rule fgt_not_trans)
    qed
    show ?thesis using s g 3 by auto
  qed
  have "\<forall>c\<in>set (d # cs). \<exists>lc. calcLength lm c = Inr lc \<and> \<not> fgt lc lr"
    using mx ld goal by simp
  with res lr goal show ?case by blast
qed

section \<open>Facts on idealizeBeam\<close>

lemma range_check_small: "\<bar>r\<bar> \<le> 2 ^ 971 \<Longrightarrow> range_check r = Inr r"
  using small_max_float [of r] by (simp add: range_check_def)

lemma max_float_less: "max_float < 2 ^ 1024"
  by (simp add: max_float_def)

lemma pz_calcMidPoint:
  "pz (calcMidPoint l) = fdiv (fadd (Fin (pz (fst l))) (Fin (pz (snd l)))) 2"
  by (simp add: calcMidPoint_def pz_def)

lemmas float_eval = rnd_0 rnd_1 rnd_neg_1 rnd_numeral rnd_neg_numeral to_float_small
  range_check_small fsub_Fin



lemma mid_pow2:
  assumes "k < 971"
  shows "fdiv (fadd (Fin (2 ^ k)) (Fin (2 ^ k))) 2 = Fin (2 ^ k)"
proof -
  have e: "(2::real) ^ k + 2 ^ k = 2 ^ Suc k" by simp
  have "(2::real) ^ Suc k \<le> 2 ^ 971" using assms by (intro power_increasing) simp_all
  then have le: "\<bar>(2::real) ^ Suc k\<bar> \<le> 2 ^ 971" by simp
  have "(2::real) ^ k \<le> 2 ^ 971" using assms by (intro power_increasing) simp_all
  then have le2: "\<bar>(2::real) ^ k\<bar> \<le> 2 ^ 971" by simp
  have "fadd (Fin (2 ^ k)) (Fin (2 ^ k)) = Fin (2 ^ Suc k)"
    by (simp only: fadd.simps e rnd_pow2 to_float_small [OF le])
  moreover have "(2::real) ^ Suc k / 2 = 2 ^ k" by simp
  ultimately show ?thesis by (simp only: fdiv.simps rnd_pow2 to_float_small [OF le2])
qed

lemma mid_zero: "fdiv (fadd (Fin 0) (Fin 0)) 2 = Fin 0"
  by (simp add: float_eval)

lemma calcLength_overflow:
  assumes "512 \<le> k" and "k < 971"
  shows "calcLength ieee_libm ((Fin 0, Fin 0, Fin 0), (Fin (2 ^ k), Fin 0, Fin 0)) = Inl OverflowError"
proof -
  have "(2::real) ^ k \<le> 2 ^ 971" using assms by (intro power_increasing) simp_all
  then have le: "\<bar>- ((2::real) ^ k)\<bar> \<le> 2 ^ 971" by simp
  have d: "fsub (Fin 0) (Fin (2 ^ k)) = Fin (- (2 ^ k))"
    by (simp add: fsub_Fin rnd_neg_pow2 to_float_small [OF le])
  have "(2::real) ^ 1024 \<le> 2 ^ (k + k)" using assms by (intro power_increasing) simp_all
  then have big: "max_float < \<bar>(2::real) ^ (k + k)\<bar>" using max_float_less by simp
  have "(2::real) ^ k * 2 ^ k = 2 ^ (k + k)" by (simp add: power_add)
  then have p: "pow_2 ieee_libm (2 ^ k) = Inl OverflowError"
    using big by (simp add: ieee_libm_def range_check_def rnd_pow2)
  have "(2::real) ^ 1 \<le> 2 ^ k" using assms by (intro power_increasing) simp_all
  then have n1: "(2::real) ^ k \<noteq> 1" by simp
  have "py_pow_2 ieee_libm (Fin (- (2 ^ k))) = Inl OverflowError"
    using p n1 by (simp add: py_pow_2_def)
  then show ?thesis by (simp add: calcLength_def px_def d)
qed

lemma beam_result_cases:
  assumes ne: "ls \<noteq> []" and sane: "libm_sane lm"
  shows "if \<exists>c\<in>set (beam_candidates (top_lines ls)). calcLength lm c = Inl OverflowError
         then idealizeBeam lm ls = Inl OverflowError
         else \<exists>r lr. idealizeBeam lm ls = Inr r \<and> calcLength lm r = Inr lr
                \<and> (r = origin_line \<or> r \<in> set (beam_candidates (top_lines ls)) \<and> fgt lr (Fin 0))
                \<and> \<not> fgt (Fin 0) lr
                \<and> (\<forall>c\<in>set (beam_candidates (top_lines ls)).
                      \<exists>lc. calcLength lm c = Inr lc \<and> \<not> fgt lc lr)"
proof -
  let ?cs = "beam_candidates (top_lines ls)"
  have res: "idealizeBeam lm ls = fold (keep_longer lm) ?cs (Inr origin_line)"
    using ne by (rule idealizeBeam_fold)
  show ?thesis
  proof (cases "\<exists>c\<in>set ?cs. calcLength lm c = Inl OverflowError")
    case True
    then obtain c where "c \<in> set ?cs" "calcLength lm c = Inl OverflowError" by blast
    from fold_keep_error [OF this calcLength_origin]
    obtain d e' where "calcLength lm d = Inl e'"
      and "fold (keep_longer lm) ?cs (Inr origin_line) = Inl e'" by blast
    moreover from this(1) have "e' = OverflowError" by (rule calcLength_Inl [OF sane])
    ultimately show ?thesis using True res by simp
  next
    case False
    have "\<forall>c\<in>set ?cs. \<exists>lc. calcLength lm c = Inr lc"
    proof
      fix c assume c: "c \<in> set ?cs"
      show "\<exists>lc. calcLength lm c = Inr lc"
      proof (cases "calcLength lm c")
        case (Inl e)
        with calcLength_Inl [OF sane Inl] c False show ?thesis by blast
      qed simp
    qed
    from fold_keep_success [OF this calcLength_origin] False res show ?thesis by simp
  qed
qed

lemma is_float_of_int:
  assumes "\<bar>n\<bar> < 2 ^ 53"
  shows "is_float (of_int n)"
proof -
  have "\<bar>real_of_int n\<bar> < 2 ^ 53" using assms by (metis of_int_abs of_int_less_numeral_power_cancel_iff)
  also have "(2::real) ^ 53 \<le> 2 ^ 971" by (intro power_increasing) simp_all
  finally have "\<bar>real_of_int n\<bar> \<le> max_float" using max_float_ge by linarith
  then show ?thesis using rnd_of_int [OF assms] by (simp add: is_float_def)
qed

lemma is_float_numeral: "numeral k < (2::int) ^ 53 \<Longrightarrow> is_float (numeral k)"
  using is_float_of_int [of "numeral k"] by simp

lemma is_float_0: "is_float 0"
  using is_float_of_int [of 0] by simp

lemma is_float_1: "is_float 1"
  using is_float_of_int [of 1] by simp

lemma is_float_pow2:
  assumes "k \<le> 971"
  shows "is_float (2 ^ k)"
proof -
  have "(2::real) ^ k \<le> 2 ^ 971" using assms by (intro power_increasing) simp_all
  then have "\<bar>(2::real) ^ k\<bar> \<le> max_float" using max_float_ge by simp
  then show ?thesis using rnd_pow2 [of k] by (simp only: is_float_def simp_thms)
qed

lemma idealizeBeam_error:
  assumes "ls \<noteq> []" and "libm_sane lm"
    and "c \<in> set (beam_candidates (top_lines ls))" and "calcLength lm c = Inl e"
  shows "idealizeBeam lm ls = Inl OverflowError"
proof -
  have "e = OverflowError" using assms(2,4) by (rule calcLength_Inl)
  with assms(3,4) have "\<exists>c\<in>set (beam_candidates (top_lines ls)). calcLength lm c = Inl OverflowError"
    by blast
  with beam_result_cases [OF assms(1,2)] show ?thesis by (simp only: if_True)
qed

lemma is_float_top:
  assumes "float_lines ls" and "l \<in> set (top_lines ls)"
  shows "is_float (z_max_of ls)"
proof -
  from top_lines_mem [OF assms(2)] have "l \<in> set ls" and z: "pz (fst l) = z_max_of ls" by simp_all
  with assms(1) have "float_point (fst l)" by (simp add: float_lines_def list_all_iff)
  then show ?thesis using z by (simp add: float_point_def)
qed

lemma candidate_z:
  assumes fl: "float_lines ls"
    and l1: "l1 \<in> set (top_lines ls)" and l2: "l2 \<in> set (top_lines ls)"
    and len: "calcLength lm (calcMidPoint l1, calcMidPoint l2) = Inr lr" and gt: "fgt lr (Fin 0)"
  shows "pz (calcMidPoint l1) = Fin (z_max_of ls) \<and> pz (calcMidPoint l2) = Fin (z_max_of ls)"
proof -
  have z1: "pz (fst l1) = z_max_of ls" "pz (snd l1) = z_max_of ls"
    and z2: "pz (fst l2) = z_max_of ls" "pz (snd l2) = z_max_of ls"
    using top_lines_mem [OF l1] top_lines_mem [OF l2] by simp_all
  have eq: "pz (calcMidPoint l1) = pz (calcMidPoint l2)" by (simp add: pz_calcMidPoint z1 z2)
  have "lr \<noteq> NaN" using gt by (cases lr) simp_all
  then have "\<not> (pz (calcMidPoint l1) = PInf \<or> pz (calcMidPoint l1) = NInf)"
    using calcLength_inf_z [OF len eq] by blast
  then have "pz (calcMidPoint l1) = Fin (z_max_of ls)"
    using calcMidPoint_z [OF is_float_top [OF fl l1] z1] by blast
  with eq show ?thesis by simp
qed

section \<open>The beam idealizer\<close>




text \<open>
  Claim C2, as the code has it. For a non-empty list of segments with no top line the beam
  idealizer raises nothing: it returns the origin placeholder \<open>((0,0,0),(0,0,0))\<close>.
\<close>

theorem idealizeBeam_no_top_lines:
  assumes "ls \<noteq> []" and "top_lines ls = []"
  shows "idealizeBeam lm ls = Inr origin_line"
  using assms by (simp add: idealizeBeam_fold beam_candidates_def)

theorem idealizeBeam_no_top_lines_witness:
  "[((0,0,0),(1,0,2))] \<noteq> ([]::line list) \<and> top_lines [((0,0,0),(1,0,2))] = []
   \<and> idealizeBeam ieee_libm [((0,0,0),(1,0,2))] = Inr origin_line"
proof -
  have ne: "[((0,0,0),(1,0,2))] \<noteq> ([]::line list)" by simp
  have nt: "top_lines [((0,0,0),(1,0,2))] = []"
    by (simp add: top_lines_def z_max_of_def pz_def)
  show ?thesis using ne nt idealizeBeam_no_top_lines [OF ne nt] by simp
qed

text \<open>
  Claim C2 as it is written fails on the single segment from \<open>(0,0,0)\<close> to \<open>(0,0,1)\<close>:
  it has no top line, and the result is the placeholder, not an IdealizationError.
\<close>

theorem idealizeBeam_no_error:
  "top_lines [((0,0,0),(0,0,1))] = []
   \<and> idealizeBeam ieee_libm [((0,0,0),(0,0,1))] = Inr ((Fin 0, Fin 0, Fin 0), (Fin 0, Fin 0, Fin 0))
   \<and> idealizeBeam ieee_libm [((0,0,0),(0,0,1))] \<noteq> Inl IdealizationError"
  by (simp add: top_lines_def z_max_of_def pz_def idealizeBeam_def py_max_def beam_zs_def
      beam_topLines_def beam_search_def origin_line_def)

text \<open>
  Claim C10, as the code has it. For a non-empty list of segments with float coordinates
  the beam idealizer raises OverflowError when the length of some candidate is out of the
  float range, and otherwise returns a line. The line is the origin placeholder, or it
  joins the midpoints of two top lines, and then both of its endpoints have the elevation
  \<open>z_max\<close>, the greatest elevation of an endpoint of the input.
\<close>

theorem idealizeBeam_result:
  assumes "ls \<noteq> []" and "libm_sane lm" and "float_lines ls"
  shows "if \<exists>c\<in>set (beam_candidates (top_lines ls)). calcLength lm c = Inl OverflowError
         then idealizeBeam lm ls = Inl OverflowError
         else \<exists>r. idealizeBeam lm ls = Inr r \<and>
                (r = origin_line \<or>
                 (\<exists>l1\<in>set (top_lines ls). \<exists>l2\<in>set (top_lines ls).
                    r = (calcMidPoint l1, calcMidPoint l2)
                    \<and> pz (fst r) = Fin (z_max_of ls) \<and> pz (snd r) = Fin (z_max_of ls)))"
proof (cases "\<exists>c\<in>set (beam_candidates (top_lines ls)). calcLength lm c = Inl OverflowError")
  case True
  then show ?thesis using beam_result_cases [OF assms(1,2)] by simp
next
  case False
  let ?cs = "beam_candidates (top_lines ls)"
  from False beam_result_cases [OF assms(1,2)]
  have "\<exists>r lr. idealizeBeam lm ls = Inr r \<and> calcLength lm r = Inr lr
                \<and> (r = origin_line \<or> r \<in> set ?cs \<and> fgt lr (Fin 0))
                \<and> \<not> fgt (Fin 0) lr
                \<and> (\<forall>c\<in>set ?cs. \<exists>lc. calcLength lm c = Inr lc \<and> \<not> fgt lc lr)"
    by (simp only: if_False)
  then obtain r lr where r: "idealizeBeam lm ls = Inr r" and lr: "calcLength lm r = Inr lr"
    and sel: "r = origin_line \<or> r \<in> set ?cs \<and> fgt lr (Fin 0)" by blast
  have "r = origin_line \<or>
          (\<exists>l1\<in>set (top_lines ls). \<exists>l2\<in>set (top_lines ls).
             r = (calcMidPoint l1, calcMidPoint l2)
             \<and> pz (fst r) = Fin (z_max_of ls) \<and> pz (snd r) = Fin (z_max_of ls))"
    using sel
  proof
    assume "r = origin_line"
    then show ?thesis by simp
  next
    assume a: "r \<in> set ?cs \<and> fgt lr (Fin 0)"
    then obtain i j where ij: "i \<le> j" "j < length (top_lines ls)"
        and ri: "r = (calcMidPoint (top_lines ls ! i), calcMidPoint (top_lines ls ! j))"
      unfolding mem_beam_candidates by blast
    let ?l1 = "top_lines ls ! i" and ?l2 = "top_lines ls ! j"
    have m1: "?l1 \<in> set (top_lines ls)" and m2: "?l2 \<in> set (top_lines ls)"
      using ij by simp_all
    have len: "calcLength lm (calcMidPoint ?l1, calcMidPoint ?l2) = Inr lr" using lr ri by simp
    from candidate_z [OF assms(3) m1 m2 len] a
    have "pz (fst r) = Fin (z_max_of ls) \<and> pz (snd r) = Fin (z_max_of ls)" using ri by simp
    with m1 m2 ri show ?thesis by blast
  qed
  with r False show ?thesis by simp
qed

theorem idealizeBeam_result_witness:
  "[((0,0,3),(6,0,3)), ((0,4,3),(6,4,3))] \<noteq> ([]::line list)
   \<and> libm_sane ieee_libm
   \<and> float_lines [((0,0,3),(6,0,3)), ((0,4,3),(6,4,3))]
   \<and> (if \<exists>c\<in>set (beam_candidates (top_lines [((0,0,3),(6,0,3)), ((0,4,3),(6,4,3))])).
            calcLength ieee_libm c = Inl OverflowError
       then idealizeBeam ieee_libm [((0,0,3),(6,0,3)), ((0,4,3),(6,4,3))] = Inl OverflowError
       else \<exists>r. idealizeBeam ieee_libm [((0,0,3),(6,0,3)), ((0,4,3),(6,4,3))] = Inr r \<and>
              (r = origin_line \<or>
               (\<exists>l1\<in>set (top_lines [((0,0,3),(6,0,3)), ((0,4,3),(6,4,3))]).
                \<exists>l2\<in>set (top_lines [((0,0,3),(6,0,3)), ((0,4,3),(6,4,3))]).
                  r = (calcMidPoint l1, calcMidPoint l2)
                  \<and> pz (fst r) = Fin (z_max_of [((0,0,3),(6,0,3)), ((0,4,3),(6,4,3))])
                  \<and> pz (snd r) = Fin (z_max_of [((0,0,3),(6,0,3)), ((0,4,3),(6,4,3))]))))
   \<and> idealizeBeam ieee_libm [((0,0,3),(6,0,3)), ((0,4,3),(6,4,3))]
       = Inr ((Fin 3, Fin 0, Fin 3), (Fin 3, Fin 4, Fin 3))"
proof -
  have ne: "[((0,0,3),(6,0,3)), ((0,4,3),(6,4,3))] \<noteq> ([]::line list)" by simp
  have fl: "float_lines [((0,0,3),(6,0,3)), ((0,4,3),(6,4,3))]"
    by (simp add: float_lines_def float_point_def px_def py_def pz_def is_float_0
        is_float_numeral)
  have ex: "idealizeBeam ieee_libm [((0,0,3),(6,0,3)), ((0,4,3),(6,4,3))]
       = Inr ((Fin 3, Fin 0, Fin 3), (Fin 3, Fin 4, Fin 3))"
    by (simp add: idealizeBeam_def py_max_def beam_zs_def beam_topLines_def beam_search_def
      beam_step_def keep_longer_def calcMidPoint_def calcLength_def origin_line_def px_def py_def
      pz_def py_pow_2_def py_pow_half_def ieee_libm_def float_eval
      upt_rec [of 0] upt_rec [of 1] upt_rec [of 2])
  show ?thesis
    using ne libm_sane_ieee fl ex idealizeBeam_result [OF ne libm_sane_ieee fl]
    by (intro conjI) blast+
qed

text \<open>
  Claim C10 as it is written fails on two top lines at the distance \<open>2\<^sup>7\<^sup>0\<^sup>0\<close>: the
  list is not empty, its coordinates are floats, and the square of the distance is out of
  the float range, so the idealizer raises OverflowError and returns nothing.
\<close>

theorem idealizeBeam_overflow:
  "float_lines [((0,0,0),(0,0,0)), ((2 ^ 700,0,0),(2 ^ 700,0,0))]
   \<and> idealizeBeam ieee_libm [((0,0,0),(0,0,0)), ((2 ^ 700,0,0),(2 ^ 700,0,0))] = Inl OverflowError"
proof
  let ?ls = "[((0,0,0),(0,0,0)), ((2 ^ 700,0,0),(2 ^ 700,0,0))] :: line list"
  have f: "is_float (2 ^ 700)" by (rule is_float_pow2) simp
  note f0 = is_float_0
  show "float_lines ?ls"
    using f f0 by (simp only: float_lines_def float_point_def list.pred_inject px_def py_def pz_def
        fst_conv snd_conv simp_thms)
  have ne: "?ls \<noteq> []" by simp
  have tl: "top_lines ?ls = ?ls" by (simp add: top_lines_def z_max_of_def pz_def)
  have m1: "calcMidPoint ((2 ^ 700,0,0),(2 ^ 700,0,0)) = (Fin (2 ^ 700), Fin 0, Fin 0)"
    using mid_pow2 [of 700] mid_zero
    by (simp only: calcMidPoint_def px_def py_def pz_def fst_conv snd_conv)
  have m0: "calcMidPoint ((0,0,0),(0,0,0)) = (Fin 0, Fin 0, Fin 0)"
    using mid_zero by (simp only: calcMidPoint_def px_def py_def pz_def fst_conv snd_conv)
  have "(calcMidPoint (?ls ! 0), calcMidPoint (?ls ! 1)) \<in> set (beam_candidates ?ls)"
    unfolding mem_beam_candidates by (intro exI [of _ 0] exI [of _ 1]) simp
  then have mem: "((Fin 0, Fin 0, Fin 0), (Fin (2 ^ 700), Fin 0, Fin 0))
                    \<in> set (beam_candidates (top_lines ?ls))"
    using m0 m1 by (simp only: tl nth_Cons_0 One_nat_def nth_Cons_Suc)
  have ov: "calcLength ieee_libm ((Fin 0, Fin 0, Fin 0), (Fin (2 ^ 700), Fin 0, Fin 0))
              = Inl OverflowError"
    by (rule calcLength_overflow) simp_all
  show "idealizeBeam ieee_libm ?ls = Inl OverflowError"
    using ne libm_sane_ieee mem ov by (rule idealizeBeam_error)
qed

section \<open>Facts on idealizeColumn\<close>

lemma column_scan_acc:
  "fold (\<lambda>line (zs, interestingLines).
             if pz (fst line) = pz (snd line)
             then (if pz (fst line) \<in> set zs then zs else zs @ [pz (fst line)],
                   interestingLines @ [line])
             else (zs, interestingLines)) ls (zs0, il0) = (zs1, il1)
   \<Longrightarrow> il1 = il0 @ horizontal_segments ls
       \<and> set zs1 = set zs0 \<union> (\<lambda>line. pz (fst line)) ` set (horizontal_segments ls)"
proof (induction ls arbitrary: zs0 il0)
  case Nil
  then show ?case by (simp add: horizontal_segments_def)
next
  case (Cons l ls)
  show ?case
  proof (cases "pz (fst l) = pz (snd l)")
    case True
    let ?zs = "if pz (fst l) \<in> set zs0 then zs0 else zs0 @ [pz (fst l)]"
    from Cons.prems True have "fold (\<lambda>line (zs, interestingLines).
             if pz (fst line) = pz (snd line)
             then (if pz (fst line) \<in> set zs then zs else zs @ [pz (fst line)],
                   interestingLines @ [line])
             else (zs, interestingLines)) ls (?zs, il0 @ [l]) = (zs1, il1)"
      by simp
    from Cons.IH [OF this] True show ?thesis
      by (auto simp: horizontal_segments_def)
  next
    case False
    from Cons.prems False have "fold (\<lambda>line (zs, interestingLines).
             if pz (fst line) = pz (snd line)
             then (if pz (fst line) \<in> set zs then zs else zs @ [pz (fst line)],
                   interestingLines @ [line])
             else (zs, interestingLines)) ls (zs0, il0) = (zs1, il1)"
      by simp
    from Cons.IH [OF this] False show ?thesis
      by (auto simp: horizontal_segments_def)
  qed
qed

lemma column_scan_eq:
  "column_scan ls = (zs, il) \<Longrightarrow>
     il = horizontal_segments ls \<and> set zs = (\<lambda>line. pz (fst line)) ` set (horizontal_segments ls)"
  unfolding column_scan_def using column_scan_acc [of ls "[]" "[]" zs il] by simp

lemma column_partition_acc:
  "zs \<noteq> [] \<Longrightarrow>
   fold (\<lambda>line acc.
             case acc of Inl e \<Rightarrow> Inl e
             | Inr (topLines, bottomLines) \<Rightarrow>
                 (case py_max zs of Inl e \<Rightarrow> Inl e
                  | Inr m \<Rightarrow> if pz (fst line) = m then Inr (topLines @ [line], bottomLines)
                             else Inr (topLines, bottomLines @ [line])))
        il (Inr (t0, b0))
     = Inr (t0 @ filter (\<lambda>line. pz (fst line) = Max (set zs)) il,
            b0 @ filter (\<lambda>line. pz (fst line) \<noteq> Max (set zs)) il)"
  by (induction il arbitrary: t0 b0) (simp_all add: py_max_nonempty)

lemma column_partition_nonempty:
  "zs \<noteq> [] \<Longrightarrow> column_partition zs il
     = Inr (filter (\<lambda>line. pz (fst line) = Max (set zs)) il,
            filter (\<lambda>line. pz (fst line) \<noteq> Max (set zs)) il)"
  unfolding column_partition_def using column_partition_acc [of zs il "[]" "[]"] by simp

lemma column_partition_Nil: "column_partition zs [] = Inr ([], [])"
  by (simp add: column_partition_def)

lemma length_endpoints: "length (endpoints ls) = length ls * 2"
  by (induction ls) (simp_all add: endpoints_def)

lemma calcAvgPoint_Nil: "calcAvgPoint [] = Inl ZeroDivisionError"
  by (simp add: calcAvgPoint_def)

lemma avg_fold_acc:
  "fold (\<lambda>line (x_avg, y_avg, z_avg).
                   (fadd x_avg (fadd (Fin (px (fst line))) (Fin (px (snd line)))),
                    fadd y_avg (fadd (Fin (py (fst line))) (Fin (py (snd line)))),
                    fadd z_avg (fadd (Fin (pz (fst line))) (Fin (pz (snd line)))))) ls (a, b, c)
     = (foldl fadd a (map (\<lambda>line. fadd (Fin (px (fst line))) (Fin (px (snd line)))) ls),
        foldl fadd b (map (\<lambda>line. fadd (Fin (py (fst line))) (Fin (py (snd line)))) ls),
        foldl fadd c (map (\<lambda>line. fadd (Fin (pz (fst line))) (Fin (pz (snd line)))) ls))"
  by (induction ls arbitrary: a b c) simp_all

lemma calcAvgPoint_nonempty: "ls \<noteq> [] \<Longrightarrow> calcAvgPoint ls = Inr (float_average_point ls)"
  by (simp add: calcAvgPoint_def avg_fold_acc float_average_point_def float_average_def
      length_endpoints del: fadd.simps)

lemma idealizeColumn_no_horizontal:
  assumes "horizontal_segments ls = []"
  shows "idealizeColumn ls = Inl ZeroDivisionError"
proof -
  obtain zs il where sc: "column_scan ls = (zs, il)" by (cases "column_scan ls")
  from column_scan_eq [OF sc] assms have "il = []" by simp
  then show ?thesis
    by (simp add: idealizeColumn_def sc column_partition_Nil calcAvgPoint_Nil)
qed

lemma idealizeColumn_horizontal:
  assumes "horizontal_segments ls \<noteq> []"
  shows "idealizeColumn ls =
     (case calcAvgPoint (bottom_partition ls) of
        Inl e \<Rightarrow> Inl e
      | Inr b \<Rightarrow> (case calcAvgPoint (top_partition ls) of Inl e \<Rightarrow> Inl e | Inr t \<Rightarrow> Inr (b, t)))"
proof -
  obtain zs il where sc: "column_scan ls = (zs, il)" by (cases "column_scan ls")
  from column_scan_eq [OF sc] have il: "il = horizontal_segments ls"
    and zs: "set zs = (\<lambda>line. pz (fst line)) ` set (horizontal_segments ls)" by simp_all
  from zs assms have ne: "zs \<noteq> []" by auto
  have mx: "Max (set zs) = top_level ls" by (simp add: zs top_level_def)
  have part: "column_partition zs il = Inr (top_partition ls, bottom_partition ls)"
    by (simp add: column_partition_nonempty [OF ne] mx il top_partition_def
        bottom_partition_def)
  show ?thesis by (simp add: idealizeColumn_def sc part)
qed

lemma top_partition_nonempty:
  assumes "horizontal_segments ls \<noteq> []"
  shows "top_partition ls \<noteq> []"
proof -
  let ?Z = "(\<lambda>line. pz (fst line)) ` set (horizontal_segments ls)"
  have "finite ?Z" "?Z \<noteq> {}" using assms by simp_all
  then have "Max ?Z \<in> ?Z" by (rule Max_in)
  then obtain l where "l \<in> set (horizontal_segments ls)" "pz (fst l) = top_level ls"
    by (auto simp: top_level_def)
  then have "l \<in> set (top_partition ls)" by (simp add: top_partition_def)
  then show ?thesis by auto
qed


lemma is_float_Ints:
  assumes "x \<in> \<int>" and "\<bar>x\<bar> < 2 ^ 53"
  shows "is_float x"
proof -
  from assms(1) obtain n where x: "x = of_int n" by (auto elim: Ints_cases)
  with assms(2) have "\<bar>n\<bar> < 2 ^ 53" by (metis of_int_abs of_int_less_numeral_power_cancel_iff)
  then show ?thesis unfolding x by (rule is_float_of_int)
qed

lemma fadd_exact:
  assumes "x \<in> \<int>" and "y \<in> \<int>" and "\<bar>x + y\<bar> < 2 ^ 53"
  shows "fadd (Fin x) (Fin y) = Fin (x + y)"
proof -
  have "is_float (x + y)" using assms by (intro is_float_Ints Ints_add)
  then show ?thesis by (simp add: is_float_def to_float_Fin)
qed

lemma foldl_fadd_exact:
  assumes "s \<in> \<int>"
    and "\<forall>line\<in>set ls. coord (fst line) \<in> \<int> \<and> coord (snd line) \<in> \<int>
            \<and> \<bar>coord (fst line)\<bar> < B \<and> \<bar>coord (snd line)\<bar> < B"
    and "\<bar>s\<bar> + 2 * B * real (length ls) \<le> 2 ^ 53"
  shows "foldl fadd (Fin s) (map (\<lambda>line. fadd (Fin (coord (fst line))) (Fin (coord (snd line)))) ls)
           = Fin (s + sum_list (map coord (endpoints ls)))"
  using assms
proof (induction ls arbitrary: s)
  case Nil
  then show ?case by (simp add: endpoints_def)
next
  case (Cons l ls)
  let ?a = "coord (fst l)" and ?b = "coord (snd l)"
  have ab: "?a \<in> \<int>" "?b \<in> \<int>" "\<bar>?a\<bar> < B" "\<bar>?b\<bar> < B" using Cons.prems(2) by simp_all
  have B0: "0 < B" using ab(3) by linarith
  have "0 \<le> 2 * B * real (length ls)" using B0 by simp
  moreover have tot: "\<bar>s\<bar> + 2 * B + 2 * B * real (length ls) \<le> 2 ^ 53"
    using Cons.prems(3) by (simp add: algebra_simps)
  ultimately have sB: "\<bar>s\<bar> + 2 * B \<le> 2 ^ 53" by linarith
  have "\<bar>?a + ?b\<bar> < 2 ^ 53" using ab(3,4) sB by linarith
  then have 1: "fadd (Fin ?a) (Fin ?b) = Fin (?a + ?b)" using ab(1,2) by (intro fadd_exact)
  have i2: "?a + ?b \<in> \<int>" using ab(1,2) by (rule Ints_add)
  have "\<bar>s + (?a + ?b)\<bar> < 2 ^ 53" using ab(3,4) sB by linarith
  then have 2: "fadd (Fin s) (Fin (?a + ?b)) = Fin (s + (?a + ?b))"
    using Cons.prems(1) i2 by (intro fadd_exact)
  have s': "s + (?a + ?b) \<in> \<int>" using Cons.prems(1) i2 by (rule Ints_add)
  have rest: "\<forall>line\<in>set ls. coord (fst line) \<in> \<int> \<and> coord (snd line) \<in> \<int>
            \<and> \<bar>coord (fst line)\<bar> < B \<and> \<bar>coord (snd line)\<bar> < B" using Cons.prems(2) by simp
  have bound: "\<bar>s + (?a + ?b)\<bar> + 2 * B * real (length ls) \<le> 2 ^ 53"
    using ab(3,4) tot by linarith
  have "foldl fadd (Fin s) (map (\<lambda>line. fadd (Fin (coord (fst line))) (Fin (coord (snd line)))) (l # ls))
          = foldl fadd (Fin (s + (?a + ?b)))
              (map (\<lambda>line. fadd (Fin (coord (fst line))) (Fin (coord (snd line)))) ls)"
    by (simp add: 1 2 del: fadd.simps)
  also have "\<dots> = Fin (s + (?a + ?b) + sum_list (map coord (endpoints ls)))"
    using s' rest bound by (rule Cons.IH)
  also have "s + (?a + ?b) + sum_list (map coord (endpoints ls))
               = s + sum_list (map coord (endpoints (l # ls)))"
    by (simp add: endpoints_def)
  finally show ?case .
qed

lemma float_average_exact:
  assumes "ls \<noteq> []"
    and "\<forall>line\<in>set ls. coord (fst line) \<in> \<int> \<and> coord (snd line) \<in> \<int>
            \<and> \<bar>coord (fst line)\<bar> * real (length (endpoints ls)) < 2 ^ 53
            \<and> \<bar>coord (snd line)\<bar> * real (length (endpoints ls)) < 2 ^ 53"
  shows "float_average coord ls
           = to_float (rnd (sum_list (map coord (endpoints ls)) / real (length (endpoints ls))))"
proof -
  let ?n = "real (length (endpoints ls))"
  let ?B = "2 ^ 53 / ?n"
  have n0: "0 < ?n" using assms(1) by (simp add: length_endpoints)
  have lt: "\<bar>c\<bar> * ?n < 2 ^ 53 \<Longrightarrow> \<bar>c\<bar> < ?B" for c :: real
    using n0 by (simp add: pos_less_divide_eq)
  have all: "\<forall>line\<in>set ls. coord (fst line) \<in> \<int> \<and> coord (snd line) \<in> \<int>
            \<and> \<bar>coord (fst line)\<bar> < ?B \<and> \<bar>coord (snd line)\<bar> < ?B"
    using assms(2) lt by blast
  have "2 * ?B * real (length ls) = 2 ^ 53" using n0 by (simp add: length_endpoints)
  then have bound: "\<bar>0::real\<bar> + 2 * ?B * real (length ls) \<le> 2 ^ 53" by simp
  have "foldl fadd (Fin 0) (map (\<lambda>line. fadd (Fin (coord (fst line))) (Fin (coord (snd line)))) ls)
          = Fin (0 + sum_list (map coord (endpoints ls)))"
    using Ints_0 all bound by (rule foldl_fadd_exact)
  then show ?thesis by (simp add: float_average_def del: fadd.simps)
qed

lemma float_average_point_exact:
  assumes "ls \<noteq> []" and "small_integers ls"
  shows "float_average_point ls = round_point (mean_point (endpoints ls))"
proof -
  have "float_average px ls
          = to_float (rnd (sum_list (map px (endpoints ls)) / real (length (endpoints ls))))"
    using assms by (intro float_average_exact) (simp_all add: small_integers_def list_all_iff)
  moreover have "float_average py ls
          = to_float (rnd (sum_list (map py (endpoints ls)) / real (length (endpoints ls))))"
    using assms by (intro float_average_exact) (simp_all add: small_integers_def list_all_iff)
  moreover have "float_average pz ls
          = to_float (rnd (sum_list (map pz (endpoints ls)) / real (length (endpoints ls))))"
    using assms by (intro float_average_exact) (simp_all add: small_integers_def list_all_iff)
  ultimately show ?thesis
    by (simp add: float_average_point_def round_point_def mean_point_def px_def py_def pz_def)
qed

lemma rnd_1e16: "rnd 10000000000000000 = 10000000000000000"
proof -
  have "(10000000000000000::real) = of_int 152587890625 * 2 ^ 16" by simp
  moreover have "rnd (of_int 152587890625 * 2 ^ 16) = of_int 152587890625 * 2 ^ 16"
    by (rule rnd_int_pow2) simp
  ultimately show ?thesis by (simp only:)
qed

lemma is_float_half: "is_float (5000000000000001 / 2)"
proof -
  have "rnd (of_int 5000000000000001 * 2 powr of_int (- 1)) = of_int 5000000000000001 * 2 powr of_int (- 1)"
    by (rule rnd_exact) simp_all
  moreover have "of_int 5000000000000001 * 2 powr of_int (- 1) = (5000000000000001 / 2 :: real)"
    by (simp add: powr_minus_divide)
  ultimately have "rnd (5000000000000001 / 2) = 5000000000000001 / 2" by (simp only:)
  moreover have "\<bar>5000000000000001 / 2 :: real\<bar> \<le> max_float"
    by (rule small_max_float) simp
  ultimately show ?thesis by (simp only: is_float_def simp_thms)
qed

lemma column_example:
  "idealizeColumn [((0,0,0),(2,0,0)), ((0,0,5),(2,0,5))] = Inr ((Fin 1, Fin 0, Fin 0), (Fin 1, Fin 0, Fin 5))"
  by (simp add: idealizeColumn_def column_scan_def column_partition_def py_max_def
      calcAvgPoint_def px_def py_def pz_def float_eval)

lemma column_example_partitions:
  "top_partition [((0,0,0),(2,0,0)), ((0,0,5),(2,0,5))] = [((0,0,5),(2,0,5))]
   \<and> bottom_partition [((0,0,0),(2,0,0)), ((0,0,5),(2,0,5))] = [((0,0,0),(2,0,0))]"
  by (simp add: top_partition_def bottom_partition_def top_level_def horizontal_segments_def pz_def)

section \<open>The column idealizer\<close>

text \<open>
  Claim C3, as the code has it. When the list has no horizontal segment, or the top or the
  bottom partition of its horizontal segments is empty (all horizontal segments at one
  elevation leave the bottom partition empty), the column idealizer fails: the division by
  \<open>len(lines)*2\<close> in \<open>calcAvgPoint\<close> raises ZeroDivisionError. The code has no
  IdealizationError.
\<close>

theorem idealizeColumn_degenerate:
  assumes "horizontal_segments ls = [] \<or> top_partition ls = [] \<or> bottom_partition ls = []"
  shows "idealizeColumn ls = Inl ZeroDivisionError"
proof (cases "horizontal_segments ls = []")
  case True
  then show ?thesis by (rule idealizeColumn_no_horizontal)
next
  case False
  then have "top_partition ls \<noteq> []" by (rule top_partition_nonempty)
  with assms False have "bottom_partition ls = []" by simp
  then show ?thesis by (simp add: idealizeColumn_horizontal [OF False] calcAvgPoint_Nil)
qed

theorem idealizeColumn_degenerate_witness:
  "(horizontal_segments [((0,0,0),(2,0,0)), ((0,1,0),(2,1,0))] = []
      \<or> top_partition [((0,0,0),(2,0,0)), ((0,1,0),(2,1,0))] = []
      \<or> bottom_partition [((0,0,0),(2,0,0)), ((0,1,0),(2,1,0))] = [])
   \<and> idealizeColumn [((0,0,0),(2,0,0)), ((0,1,0),(2,1,0))] = Inl ZeroDivisionError"
proof -
  have b: "bottom_partition [((0,0,0),(2,0,0)), ((0,1,0),(2,1,0))] = []"
    by (simp add: bottom_partition_def top_level_def horizontal_segments_def pz_def)
  then have h: "horizontal_segments [((0,0,0),(2,0,0)), ((0,1,0),(2,1,0))] = []
      \<or> top_partition [((0,0,0),(2,0,0)), ((0,1,0),(2,1,0))] = []
      \<or> bottom_partition [((0,0,0),(2,0,0)), ((0,1,0),(2,1,0))] = []" by simp
  show ?thesis using h idealizeColumn_degenerate [OF h] by (rule conjI)
qed

text \<open>
  Claim C3 as it is written fails on the single vertical segment from \<open>(0,0,0)\<close> to
  \<open>(0,0,1)\<close>: the list has no horizontal segment, and the exception is ZeroDivisionError,
  not IdealizationError.
\<close>

theorem idealizeColumn_zero_division:
  "horizontal_segments [((0,0,0),(0,0,1))] = []
   \<and> idealizeColumn [((0,0,0),(0,0,1))] = Inl ZeroDivisionError
   \<and> idealizeColumn [((0,0,0),(0,0,1))] \<noteq> Inl IdealizationError"
  by (simp add: horizontal_segments_def idealizeColumn_def column_scan_def column_partition_def
      calcAvgPoint_def pz_def)

text \<open>
  Claim C4, as the code has it. When the horizontal segments split into a non-empty top
  partition (the segments at the greatest elevation of a horizontal segment) and a
  non-empty bottom partition (every other horizontal segment), the column idealizer
  returns the line from the float average of the bottom partition to the float average of
  the top partition: for each coordinate the float sums of the two endpoints of the
  segments are added in the order of the list, each addition rounded, and the total is
  divided by the number of endpoints. When the coordinates of a partition are small
  integers no addition rounds, and the average is the arithmetic mean of the endpoints
  rounded to a float. With the bottom segment \<open>((0,0,0),(2,0,0))\<close> and the top segment
  \<open>((0,0,5),(2,0,5))\<close> the result is \<open>((1,0,0),(1,0,5))\<close>.
\<close>

theorem idealizeColumn_average:
  assumes "top_partition ls \<noteq> []" and "bottom_partition ls \<noteq> []"
  shows "idealizeColumn ls =
           Inr (float_average_point (bottom_partition ls), float_average_point (top_partition ls))
         \<and> (small_integers (bottom_partition ls) \<and> small_integers (top_partition ls) \<longrightarrow>
              idealizeColumn ls =
                Inr (round_point (mean_point (endpoints (bottom_partition ls))),
                     round_point (mean_point (endpoints (top_partition ls)))))
         \<and> idealizeColumn [((0,0,0),(2,0,0)), ((0,0,5),(2,0,5))]
             = Inr ((Fin 1, Fin 0, Fin 0), (Fin 1, Fin 0, Fin 5))"
proof -
  from assms(1) have "horizontal_segments ls \<noteq> []" by (auto simp: top_partition_def)
  then have avg: "idealizeColumn ls =
           Inr (float_average_point (bottom_partition ls), float_average_point (top_partition ls))"
    using assms by (simp add: idealizeColumn_horizontal calcAvgPoint_nonempty)
  have "small_integers (bottom_partition ls) \<and> small_integers (top_partition ls) \<Longrightarrow>
          idealizeColumn ls =
                Inr (round_point (mean_point (endpoints (bottom_partition ls))),
                     round_point (mean_point (endpoints (top_partition ls))))"
    using assms avg by (simp add: float_average_point_exact)
  with avg column_example show ?thesis by blast
qed

theorem idealizeColumn_average_witness:
  "top_partition [((0,0,0),(2,0,0)), ((0,0,5),(2,0,5))] \<noteq> []
   \<and> bottom_partition [((0,0,0),(2,0,0)), ((0,0,5),(2,0,5))] \<noteq> []
   \<and> small_integers (bottom_partition [((0,0,0),(2,0,0)), ((0,0,5),(2,0,5))])
   \<and> small_integers (top_partition [((0,0,0),(2,0,0)), ((0,0,5),(2,0,5))])
   \<and> idealizeColumn [((0,0,0),(2,0,0)), ((0,0,5),(2,0,5))] =
           Inr (float_average_point (bottom_partition [((0,0,0),(2,0,0)), ((0,0,5),(2,0,5))]),
                float_average_point (top_partition [((0,0,0),(2,0,0)), ((0,0,5),(2,0,5))]))
   \<and> idealizeColumn [((0,0,0),(2,0,0)), ((0,0,5),(2,0,5))] =
           Inr (round_point (mean_point (endpoints
                  (bottom_partition [((0,0,0),(2,0,0)), ((0,0,5),(2,0,5))]))),
                round_point (mean_point (endpoints
                  (top_partition [((0,0,0),(2,0,0)), ((0,0,5),(2,0,5))]))))
   \<and> idealizeColumn [((0,0,0),(2,0,0)), ((0,0,5),(2,0,5))]
       = Inr ((Fin 1, Fin 0, Fin 0), (Fin 1, Fin 0, Fin 5))"
proof -
  have t: "top_partition [((0,0,0),(2,0,0)), ((0,0,5),(2,0,5))] \<noteq> []"
    and b: "bottom_partition [((0,0,0),(2,0,0)), ((0,0,5),(2,0,5))] \<noteq> []"
    by (simp_all add: column_example_partitions)
  have sb: "small_integers (bottom_partition [((0,0,0),(2,0,0)), ((0,0,5),(2,0,5))])"
    and st: "small_integers (top_partition [((0,0,0),(2,0,0)), ((0,0,5),(2,0,5))])"
    by (simp_all add: column_example_partitions small_integers_def endpoints_def px_def py_def
        pz_def)
  show ?thesis using t b sb st idealizeColumn_average [OF t b] by blast
qed

text \<open>
  Claim C4 as it is written fails on a bottom partition with the endpoints
  \<open>10\<^sup>1\<^sup>6\<close>, 1, 1 and 0 on the first axis: the sum \<open>10\<^sup>1\<^sup>6 + 1\<close> rounds to \<open>10\<^sup>1\<^sup>6\<close>, twice,
  and the first coordinate of the result is \<open>2500000000000000\<close>, while the arithmetic mean
  of the four endpoints is \<open>2500000000000000.5\<close>, which is a float.
\<close>

theorem idealizeColumn_rounds:
  "idealizeColumn [((10000000000000000,0,0),(1,0,0)), ((1,0,0),(0,0,0)), ((0,0,5),(2,0,5))]
     = Inr ((Fin 2500000000000000, Fin 0, Fin 0), (Fin 1, Fin 0, Fin 5))
   \<and> mean_point (endpoints (bottom_partition
        [((10000000000000000,0,0),(1,0,0)), ((1,0,0),(0,0,0)), ((0,0,5),(2,0,5))]))
     = (5000000000000001 / 2, 0, 0)
   \<and> is_float (5000000000000001 / 2)"
proof (intro conjI)
  show "idealizeColumn [((10000000000000000,0,0),(1,0,0)), ((1,0,0),(0,0,0)), ((0,0,5),(2,0,5))]
     = Inr ((Fin 2500000000000000, Fin 0, Fin 0), (Fin 1, Fin 0, Fin 5))"
    by (simp add: idealizeColumn_def column_scan_def column_partition_def py_max_def
      calcAvgPoint_def px_def py_def pz_def float_eval rnd_tie rnd_1e16)
  show "mean_point (endpoints (bottom_partition
        [((10000000000000000,0,0),(1,0,0)), ((1,0,0),(0,0,0)), ((0,0,5),(2,0,5))]))
     = (5000000000000001 / 2, 0, 0)"
    by (simp add: mean_point_def endpoints_def bottom_partition_def top_level_def
        horizontal_segments_def px_def py_def pz_def)
  show "is_float (5000000000000001 / 2)" by (rule is_float_half)
qed

section \<open>Facts on abstract_elements_by_type\<close>

lemma py_index_eq: "py_index xs i = (if index_ok xs i then Inr (at_index xs i) else Inl IndexError)"
  by (auto simp: py_index_def index_ok_def at_index_def)

lemma resolve_line_eq:
  "resolve_line P lp = (if index_ok P (fst lp) \<and> index_ok P (snd lp) then Inr (resolved P lp)
                        else Inl IndexError)"
  by (simp add: resolve_line_def py_index_eq resolved_def)

lemma resolve_lines_eq:
  "resolve_lines P lps =
     (if \<forall>lp\<in>set lps. index_ok P (fst lp) \<and> index_ok P (snd lp) then Inr (map (resolved P) lps)
      else Inl IndexError)"
  by (induction lps) (simp_all add: resolve_line_eq)

lemma mesh_line_points_edge_buffer: "mesh_line_points (edge_buffer ps) = ps"
proof -
  have len: "length (edge_buffer ps) = length ps * 2"
    by (induction ps) (simp_all add: edge_buffer_def)
  have nth0: "i < length ps \<Longrightarrow> edge_buffer ps ! (i * 2) = fst (ps ! i)
                \<and> edge_buffer ps ! Suc (i * 2) = snd (ps ! i)" for i
  proof (induction ps arbitrary: i)
    case Nil
    then show ?case by simp
  next
    case (Cons p ps)
    show ?case
    proof (cases i)
      case 0
      then show ?thesis by (simp add: edge_buffer_def)
    next
      case (Suc k)
      with Cons.prems have "k < length ps" by simp
      from Cons.IH [OF this] Suc show ?thesis by (simp add: edge_buffer_def)
    qed
  qed
  have "map (\<lambda>i. (edge_buffer ps ! (i * 2), edge_buffer ps ! (i * 2 + 1))) [0..<length ps]
          = map (\<lambda>i. ps ! i) [0..<length ps]"
    by (rule map_cong) (simp_all add: nth0)
  then show ?thesis by (simp add: mesh_line_points_def len map_nth)
qed

lemma mesh_points_take: "mesh_points (take (length vs div 3 * 3) vs) = mesh_points vs"
proof -
  let ?k = "length vs div 3"
  have le: "?k * 3 \<le> length vs" by simp
  then have len: "length (take (?k * 3) vs) = ?k * 3" by simp
  have "map (\<lambda>i. (take (?k * 3) vs ! (i * 3), take (?k * 3) vs ! (i * 3 + 1),
                    take (?k * 3) vs ! (i * 3 + 2))) [0..<?k]
          = map (\<lambda>i. (vs ! (i * 3), vs ! (i * 3 + 1), vs ! (i * 3 + 2))) [0..<?k]"
    by (rule map_cong) simp_all
  then show ?thesis unfolding mesh_points_def len by simp
qed

lemma mesh_line_points_take: "mesh_line_points (take (length es div 2 * 2) es) = mesh_line_points es"
proof -
  let ?k = "length es div 2"
  have le: "?k * 2 \<le> length es" by simp
  then have len: "length (take (?k * 2) es) = ?k * 2" by simp
  have "map (\<lambda>i. (take (?k * 2) es ! (i * 2), take (?k * 2) es ! (i * 2 + 1))) [0..<?k]
          = map (\<lambda>i. (es ! (i * 2), es ! (i * 2 + 1))) [0..<?k]"
    by (rule map_cong) simp_all
  then show ?thesis unfolding mesh_line_points_def len by simp
qed

lemma set_order_remdups: "set_order remdups"
  by (simp add: set_order_def)

lemma set_orderD: "set_order order \<Longrightarrow> set (order xs) = set xs"
  "set_order order \<Longrightarrow> distinct (order xs)"
  by (simp_all add: set_order_def)

lemma element_lines_eq:
  assumes "set_order order"
  shows "element_lines order vs es =
     (if \<forall>lp\<in>set (mesh_line_points es).
           index_ok (mesh_points vs) (fst lp) \<and> index_ok (mesh_points vs) (snd lp)
      then Inr (map (resolved (mesh_points vs)) (order (mesh_line_points es)))
      else Inl IndexError)"
  by (simp add: element_lines_def resolve_lines_eq set_orderD(1) [OF assms])

lemma element_lines_take:
  "element_lines order vs es
     = element_lines order (take (length vs div 3 * 3) vs) (take (length es div 2 * 2) es)"
  by (simp add: element_lines_def mesh_points_take mesh_line_points_take)

lemma element_lines_not_malformed:
  assumes "set_order order"
  shows "element_lines order vs es \<noteq> Inl MalformedMeshError"
  by (simp add: element_lines_eq [OF assms])

lemma mset_order: "set_order order \<Longrightarrow> mset (order xs) = mset (remdups xs)"
  using set_orderD [of order xs] by (simp add: set_eq_iff_mset_eq_distinct [symmetric])

lemma segment_mset_element_lines:
  assumes "set_order order"
  shows "segment_mset (element_lines order vs es) =
     (if \<forall>lp\<in>set (mesh_line_points es).
           index_ok (mesh_points vs) (fst lp) \<and> index_ok (mesh_points vs) (snd lp)
      then Inr (image_mset (resolved (mesh_points vs)) (mset (order (mesh_line_points es))))
      else Inl IndexError)"
  by (simp add: element_lines_eq [OF assms] segment_mset_def)


section \<open>The mesh decoder\<close>

text \<open>
  Claim C5, as the code has it. The decoder validates nothing and never raises
  MalformedMeshError. The values after the last full triple of the vertex buffer and after
  the last full pair of the edge buffer are dropped: the result is that of the truncated
  buffers. The decoder fails exactly when an index of a retained pair lies outside
  \<open>[-n, n)\<close> for the \<open>n\<close> reconstructed points, and then with IndexError; an index in
  \<open>[-n, -1]\<close> is accepted and counts from the end of the point list.
\<close>

theorem element_lines_no_validation:
  assumes "set_order order"
  shows "element_lines order vs es
           = element_lines order (take (length vs div 3 * 3) vs) (take (length es div 2 * 2) es)
         \<and> element_lines order vs es =
             (if \<forall>lp\<in>set (mesh_line_points es).
                   index_ok (mesh_points vs) (fst lp) \<and> index_ok (mesh_points vs) (snd lp)
              then Inr (map (resolved (mesh_points vs)) (order (mesh_line_points es)))
              else Inl IndexError)
         \<and> element_lines order vs es \<noteq> Inl MalformedMeshError"
  using element_lines_take [of order vs es] element_lines_eq [OF assms, of vs es]
    element_lines_not_malformed [OF assms, of vs es]
  by (intro conjI)

theorem element_lines_no_validation_witness:
  "set_order remdups
   \<and> element_lines remdups [0,0,0,1,1,1,9] [0,1,7]
           = element_lines remdups (take (length [0,0,0,1,1,1,9::real] div 3 * 3) [0,0,0,1,1,1,9])
               (take (length [0,1,7::int] div 2 * 2) [0,1,7])
   \<and> element_lines remdups [0,0,0,1,1,1,9] [0,1,7] =
             (if \<forall>lp\<in>set (mesh_line_points [0,1,7]).
                   index_ok (mesh_points [0,0,0,1,1,1,9]) (fst lp)
                   \<and> index_ok (mesh_points [0,0,0,1,1,1,9]) (snd lp)
              then Inr (map (resolved (mesh_points [0,0,0,1,1,1,9]))
                         (remdups (mesh_line_points [0,1,7])))
              else Inl IndexError)
   \<and> element_lines remdups [0,0,0,1,1,1,9] [0,1,7] \<noteq> Inl MalformedMeshError"
  using set_order_remdups
    element_lines_no_validation [OF set_order_remdups, of "[0,0,0,1,1,1,9]" "[0,1,7]"]
  by (rule conjI)

text \<open>
  Claim C5 as it is written fails on a vertex buffer of four values, on an edge buffer of
  three values and on an index out of range: the first two are decoded with the leftover
  value dropped, the third raises IndexError, and the index \<open>-1\<close> is accepted.
\<close>

theorem element_lines_tolerates_malformed:
  "element_lines remdups [0,0,0,1] [0,0] = Inr [((0,0,0),(0,0,0))]
   \<and> element_lines remdups [0,0,0] [0,0,7] = Inr [((0,0,0),(0,0,0))]
   \<and> element_lines remdups [0,0,0] [0,5] = Inl IndexError
   \<and> element_lines remdups [0,0,0] [0,-1] = Inr [((0,0,0),(0,0,0))]"
  by (simp add: element_lines_def mesh_points_def mesh_line_points_def resolve_line_def py_index_def)

text \<open>
  Claim C6. For every vertex buffer and every list of index pairs, the decoder on the edge
  buffer with every pair written twice and the decoder on the edge buffer with the duplicate
  pairs removed give the same result up to order: the same segments, each as often in the
  one as in the other, or IndexError in both. This holds for every order in which the two
  sets of pairs are enumerated. When every index is accepted the result has one segment
  for each distinct index pair of the list, however often the buffer repeats the pair.
\<close>

theorem element_lines_dedup_idempotent:
  assumes "set_order order" and "set_order order'"
  shows "segment_mset (element_lines order vs (edge_buffer (concat (map (\<lambda>p. [p, p]) ps))))
           = segment_mset (element_lines order' vs (edge_buffer (remdups ps)))
         \<and> segment_mset (element_lines order vs (edge_buffer (concat (map (\<lambda>p. [p, p]) ps))))
           = (if \<forall>lp\<in>set ps. index_ok (mesh_points vs) (fst lp) \<and> index_ok (mesh_points vs) (snd lp)
              then Inr (image_mset (resolved (mesh_points vs)) (mset (remdups ps)))
              else Inl IndexError)"
proof -
  let ?dup = "concat (map (\<lambda>p. [p, p]) ps)"
  have s: "set ?dup = set ps" by auto
  have "mset (order ?dup) = mset (remdups ?dup)" using assms(1) by (rule mset_order)
  also have "\<dots> = mset (remdups ps)"
    using s by (simp add: set_eq_iff_mset_eq_distinct [symmetric])
  finally have m1: "mset (order ?dup) = mset (remdups ps)" .
  have "mset (order' (remdups ps)) = mset (remdups (remdups ps))" using assms(2) by (rule mset_order)
  then have m2: "mset (order' (remdups ps)) = mset (remdups ps)"
    by (simp only: distinct_remdups_id [OF distinct_remdups])
  have 1: "segment_mset (element_lines order vs (edge_buffer ?dup))
           = (if \<forall>lp\<in>set ps. index_ok (mesh_points vs) (fst lp) \<and> index_ok (mesh_points vs) (snd lp)
              then Inr (image_mset (resolved (mesh_points vs)) (mset (remdups ps)))
              else Inl IndexError)"
    by (simp add: segment_mset_element_lines [OF assms(1)] mesh_line_points_edge_buffer s m1)
  have 2: "segment_mset (element_lines order' vs (edge_buffer (remdups ps)))
           = (if \<forall>lp\<in>set ps. index_ok (mesh_points vs) (fst lp) \<and> index_ok (mesh_points vs) (snd lp)
              then Inr (image_mset (resolved (mesh_points vs)) (mset (remdups ps)))
              else Inl IndexError)"
    by (simp add: segment_mset_element_lines [OF assms(2)] mesh_line_points_edge_buffer m2)
  show ?thesis using 1 2 by simp
qed

theorem element_lines_dedup_idempotent_witness:
  "set_order remdups \<and> set_order remdups
   \<and> segment_mset (element_lines remdups [0,0,0,1,1,1]
                     (edge_buffer (concat (map (\<lambda>p. [p, p]) [(0,1),(1,0),(0,1)]))))
       = segment_mset (element_lines remdups [0,0,0,1,1,1] (edge_buffer (remdups [(0,1),(1,0),(0,1)])))
   \<and> segment_mset (element_lines remdups [0,0,0,1,1,1]
                     (edge_buffer (concat (map (\<lambda>p. [p, p]) [(0,1),(1,0),(0,1)]))))
       = (if \<forall>lp\<in>set [(0,1),(1,0),(0,1)].
               index_ok (mesh_points [0,0,0,1,1,1]) (fst lp) \<and> index_ok (mesh_points [0,0,0,1,1,1]) (snd lp)
          then Inr (image_mset (resolved (mesh_points [0,0,0,1,1,1])) (mset (remdups [(0,1),(1,0),(0,1)])))
          else Inl IndexError)
   \<and> segment_mset (element_lines remdups [0,0,0,1,1,1]
                     (edge_buffer (concat (map (\<lambda>p. [p, p]) [(0,1),(1,0),(0,1)]))))
       = Inr {#((1,1,1),(0,0,0)), ((0,0,0),(1,1,1))#}"
proof -
  have v: "(if \<forall>lp\<in>set [(0,1),(1,0),(0,1)].
               index_ok (mesh_points [0,0,0,1,1,1]) (fst lp) \<and> index_ok (mesh_points [0,0,0,1,1,1]) (snd lp)
          then Inr (image_mset (resolved (mesh_points [0,0,0,1,1,1])) (mset (remdups [(0,1),(1,0),(0,1)])))
          else Inl IndexError) = (Inr {#((1,1,1),(0,0,0)), ((0,0,0),(1,1,1))#} :: py_error + line multiset)"
    by (simp add: index_ok_def mesh_points_def resolved_def at_index_def)
  note t = element_lines_dedup_idempotent [OF set_order_remdups set_order_remdups,
        of "[0,0,0,1,1,1]" "[(0,1),(1,0),(0,1)]"]
  show ?thesis
    using set_order_remdups t [THEN conjunct1] t [THEN conjunct2] trans [OF t [THEN conjunct2] v]
    by (intro conjI)
qed

text \<open>
  Claim C7. When the edge buffer holds the index pairs \<open>(a, b)\<close> and \<open>(b, a)\<close> with
  \<open>a \<noteq> b\<close>, and every index is valid, the decoder succeeds and its output holds, at
  two different positions, the segment from point \<open>a\<close> to point \<open>b\<close> and the segment from
  point \<open>b\<close> to point \<open>a\<close>; the output has one segment for each distinct index pair.
\<close>

theorem element_lines_keeps_reversed_pairs:
  assumes "set_order order"
    and "(a, b) \<in> set ps" and "(b, a) \<in> set ps" and "a \<noteq> b"
    and "valid_indices (length vs div 3) ps"
  shows "\<exists>ls. element_lines order vs (edge_buffer ps) = Inr ls
           \<and> length ls = card (set ps)
           \<and> (\<exists>i j. i \<noteq> j \<and> i < length ls \<and> j < length ls
                  \<and> ls ! i = (mesh_points vs ! nat a, mesh_points vs ! nat b)
                  \<and> ls ! j = (mesh_points vs ! nat b, mesh_points vs ! nat a))"
proof -
  have valid: "\<forall>lp\<in>set ps. 0 \<le> fst lp \<and> fst lp < int (length vs div 3)
                       \<and> 0 \<le> snd lp \<and> snd lp < int (length vs div 3)"
    using assms(5) by (simp add: valid_indices_def list_all_iff)
  let ?P = "mesh_points vs"
  let ?o = "order ps"
  let ?ls = "map (resolved ?P) ?o"
  have lenP: "length ?P = length vs div 3" by (simp add: mesh_points_def)
  have ok: "\<forall>lp\<in>set (mesh_line_points (edge_buffer ps)).
              index_ok ?P (fst lp) \<and> index_ok ?P (snd lp)"
    using valid by (auto simp: mesh_line_points_edge_buffer index_ok_def lenP)
  have res: "element_lines order vs (edge_buffer ps) = Inr ?ls"
    using ok by (simp add: element_lines_eq [OF assms(1)] mesh_line_points_edge_buffer)
  have len: "length ?ls = card (set ps)"
    using distinct_card [OF set_orderD(2) [OF assms(1), of ps]] set_orderD(1) [OF assms(1), of ps] by simp
  from assms(2) have "(a, b) \<in> set ?o" by (simp add: set_orderD(1) [OF assms(1)])
  then obtain i where i: "i < length ?o" "?o ! i = (a, b)" by (auto simp: in_set_conv_nth)
  from assms(3) have "(b, a) \<in> set ?o" by (simp add: set_orderD(1) [OF assms(1)])
  then obtain j where j: "j < length ?o" "?o ! j = (b, a)" by (auto simp: in_set_conv_nth)
  have ij: "i \<noteq> j" using i j assms(4) by auto
  have a0: "0 \<le> a" and b0: "0 \<le> b" using valid assms(2) by auto
  have "?ls ! i = (?P ! nat a, ?P ! nat b)"
    using i a0 b0 by (simp add: resolved_def at_index_def)
  moreover have "?ls ! j = (?P ! nat b, ?P ! nat a)"
    using j a0 b0 by (simp add: resolved_def at_index_def)
  ultimately show ?thesis using res len ij i(1) j(1)
    by (intro exI [of _ ?ls] conjI exI [of _ i] exI [of _ j]) simp_all
qed

theorem element_lines_keeps_reversed_pairs_witness:
  "set_order remdups \<and> (0::int, 1::int) \<in> set [(0,1),(1,0)]
   \<and> (1::int, 0::int) \<in> set [(0,1),(1,0)]
   \<and> (0::int) \<noteq> 1 \<and> valid_indices (length [0,0,0,1,1,1::real] div 3) [(0,1),(1,0)]
   \<and> (\<exists>ls. element_lines remdups [0,0,0,1,1,1] (edge_buffer [(0,1),(1,0)]) = Inr ls
           \<and> length ls = card (set [(0::int,1::int),(1,0)])
           \<and> (\<exists>i j. i \<noteq> j \<and> i < length ls \<and> j < length ls
                  \<and> ls ! i = (mesh_points [0,0,0,1,1,1] ! nat 0, mesh_points [0,0,0,1,1,1] ! nat 1)
                  \<and> ls ! j = (mesh_points [0,0,0,1,1,1] ! nat 1, mesh_points [0,0,0,1,1,1] ! nat 0)))"
proof -
  have h1: "(0::int, 1::int) \<in> set [(0,1),(1,0)]" and h2: "(1::int, 0::int) \<in> set [(0,1),(1,0)]"
    and h3: "(0::int) \<noteq> 1" by simp_all
  have h4: "valid_indices (length [0,0,0,1,1,1::real] div 3) [(0,1),(1,0)]"
    by (simp add: valid_indices_def)
  show ?thesis
    using set_order_remdups h1 h2 h3 h4
      element_lines_keeps_reversed_pairs [OF set_order_remdups h1 h2 h3 h4]
    by (intro conjI)
qed


section \<open>The serializer\<close>

lemma replace_ne_single: "replace_ne [c] new s = concat (map (\<lambda>x. if x = c then new else [x]) s)"
  by (induction s) simp_all

lemma replace_remove: "replace s [c] [] = filter (\<lambda>x. x \<noteq> c) s"
  unfolding replace_def replace_ne_single by (induction s) simp_all

lemma replace_ne_skip:
  "hd old \<notin> set xs \<Longrightarrow> old \<noteq> [] \<Longrightarrow> replace_ne old new (xs @ rest) = xs @ replace_ne old new rest"
proof (induction xs)
  case Nil
  show ?case by simp
next
  case (Cons x xs)
  from Cons.prems have ne: "x \<noteq> hd old" by auto
  have "take (length old) (x # xs @ rest) \<noteq> old"
  proof
    assume eq: "take (length old) (x # xs @ rest) = old"
    from Cons.prems(2) obtain c0 cs0 where old: "old = c0 # cs0" by (cases old) auto
    with eq have "x = c0" by simp
    with old ne show False by simp
  qed
  then show ?case using Cons by simp
qed

lemma replace_ne_hit:
  "old \<noteq> [] \<Longrightarrow> replace_ne old new (old @ rest) = new @ replace_ne old new rest"
  by (cases old) simp_all

lemma filter_plain:
  assumes "plain s"
  shows "filter (\<lambda>x. x \<noteq> CHR '' '') s = s" "filter (\<lambda>x. x \<noteq> CHR ''('') s = s"
    "filter (\<lambda>x. x \<noteq> CHR '')'') s = s"
  using assms by (auto simp: plain_def filter_id_conv)

lemma line_text_format:
  assumes a: "plain A" and b: "plain B" and c: "plain C" and d: "plain D" and e: "plain E"
    and f: "plain F"
    and str: "str_coord x1 = A" "str_coord y1 = B" "str_coord z1 = C"
      "str_coord x2 = D" "str_coord y2 = E" "str_coord z2 = F"
  shows "line_text str_coord ((x1, y1, z1), (x2, y2, z2))
     = ''line '' @ A @ '','' @ B @ '','' @ C @ '' '' @ D @ '','' @ E @ '','' @ F @ '' '' @ newline"
proof -
  note fp = filter_plain [OF a] filter_plain [OF b] filter_plain [OF c]
    filter_plain [OF d] filter_plain [OF e] filter_plain [OF f]
  have s1: "replace (str_line str_coord ((x1, y1, z1), (x2, y2, z2))) '' '' ''''
      = ''(('' @ A @ '','' @ B @ '','' @ C @ ''),('' @ D @ '','' @ E @ '','' @ F @ ''))''"
    by (simp add: replace_remove str_line_def str_point_def str fp)
  have np1: "hd ''),('' \<notin> set (''line (('' @ A @ '','' @ B @ '','' @ C)"
    using a b c by (simp add: plain_def)
  have np2: "hd ''),('' \<notin> set (D @ '','' @ E @ '','' @ F)"
    using d e f by (simp add: plain_def)
  have tail: "replace_ne ''),('' '' '' (''))'' @ '' '' @ newline) = ''))'' @ '' '' @ newline"
    by (simp add: newline_def)
  have "replace (''line '' @ (''(('' @ A @ '','' @ B @ '','' @ C @ ''),('' @ D @ '','' @ E @ '','' @ F @ ''))'')
                   @ '' '' @ newline) ''),('' '' ''
        = replace_ne ''),('' '' '' ((''line (('' @ A @ '','' @ B @ '','' @ C)
             @ (''),('' @ ((D @ '','' @ E @ '','' @ F) @ (''))'' @ '' '' @ newline))))"
    by (simp add: replace_def)
  also have "\<dots> = (''line (('' @ A @ '','' @ B @ '','' @ C)
             @ replace_ne ''),('' '' '' (''),('' @ ((D @ '','' @ E @ '','' @ F) @ (''))'' @ '' '' @ newline)))"
    by (rule replace_ne_skip [OF np1]) simp
  also have "replace_ne ''),('' '' '' (''),('' @ ((D @ '','' @ E @ '','' @ F) @ (''))'' @ '' '' @ newline)))
        = '' '' @ replace_ne ''),('' '' '' ((D @ '','' @ E @ '','' @ F) @ (''))'' @ '' '' @ newline))"
    by (rule replace_ne_hit) simp
  also have "replace_ne ''),('' '' '' ((D @ '','' @ E @ '','' @ F) @ (''))'' @ '' '' @ newline))
        = (D @ '','' @ E @ '','' @ F) @ replace_ne ''),('' '' '' (''))'' @ '' '' @ newline)"
    by (rule replace_ne_skip [OF np2]) simp
  also note tail
  finally have s3: "replace (''line '' @ (''(('' @ A @ '','' @ B @ '','' @ C @ ''),('' @ D @ '','' @ E @ '','' @ F @ ''))'')
                   @ '' '' @ newline) ''),('' '' ''
        = ''line (('' @ A @ '','' @ B @ '','' @ C @ '' '' @ D @ '','' @ E @ '','' @ F @ ''))'' @ '' '' @ newline"
    by simp
  show ?thesis
    unfolding line_text_def Let_def s1 s3
    by (simp add: replace_remove fp newline_def)
qed

lemma writeLines_example:
  "writeLines str_int [((1,2,3),(4,5,6))] file_name Mode_w fs file_name
     = Some (''zoom -100,-100,-100 -200,-200,-200'' @ newline @ ''line 1,2,3 4,5,6 '' @ newline
             @ ''zoom a'' @ newline)"
  by (simp add: writeLines_def open_file_def line_text_def str_line_def str_point_def replace_def
      str_int_def newline_def)

text \<open>
  Claim C8, as the code has it. When the rendering of each of the six coordinates has no
  space and no parenthesis, the text written for a segment is \<open>line\<close>, a space, the three
  coordinates of the first point separated by commas without spaces, one space, the three
  coordinates of the second point separated by commas, one more space, and the newline.
  Writing the single line \<open>((1,2,3),(4,5,6))\<close> in mode \<open>w\<close> leaves a file of exactly
  three lines, each ended by a newline: the zoom header, then \<open>line 1,2,3 4,5,6\<close>
  followed by one space, then \<open>zoom a\<close>.
\<close>

theorem writeLines_single_segment:
  assumes "plain (str_coord x1)" and "plain (str_coord y1)" and "plain (str_coord z1)"
    and "plain (str_coord x2)" and "plain (str_coord y2)" and "plain (str_coord z2)"
  shows "line_text str_coord ((x1, y1, z1), (x2, y2, z2))
           = ''line '' @ str_coord x1 @ '','' @ str_coord y1 @ '','' @ str_coord z1 @ '' ''
               @ str_coord x2 @ '','' @ str_coord y2 @ '','' @ str_coord z2 @ '' '' @ newline
         \<and> writeLines str_int [((1,2,3),(4,5,6))] file_name Mode_w fs file_name
           = Some (''zoom -100,-100,-100 -200,-200,-200'' @ newline @ ''line 1,2,3 4,5,6 ''
                   @ newline @ ''zoom a'' @ newline)"
proof (rule conjI)
  show "line_text str_coord ((x1, y1, z1), (x2, y2, z2))
           = ''line '' @ str_coord x1 @ '','' @ str_coord y1 @ '','' @ str_coord z1 @ '' ''
               @ str_coord x2 @ '','' @ str_coord y2 @ '','' @ str_coord z2 @ '' '' @ newline"
    using assms by (rule line_text_format) (rule refl)+
  show "writeLines str_int [((1,2,3),(4,5,6))] file_name Mode_w fs file_name
           = Some (''zoom -100,-100,-100 -200,-200,-200'' @ newline @ ''line 1,2,3 4,5,6 ''
                   @ newline @ ''zoom a'' @ newline)"
    by (rule writeLines_example)
qed

theorem writeLines_single_segment_witness:
  "plain (str_int 1) \<and> plain (str_int 2) \<and> plain (str_int 3)
   \<and> plain (str_int 4) \<and> plain (str_int 5) \<and> plain (str_int 6)
   \<and> line_text str_int ((1, 2, 3), (4, 5, 6))
           = ''line '' @ str_int 1 @ '','' @ str_int 2 @ '','' @ str_int 3 @ '' ''
               @ str_int 4 @ '','' @ str_int 5 @ '','' @ str_int 6 @ '' '' @ newline
   \<and> writeLines str_int [((1,2,3),(4,5,6))] ''out.scr'' Mode_w Map.empty ''out.scr''
           = Some (''zoom -100,-100,-100 -200,-200,-200'' @ newline @ ''line 1,2,3 4,5,6 ''
                   @ newline @ ''zoom a'' @ newline)"
proof -
  have p: "plain (str_int 1)" "plain (str_int 2)" "plain (str_int 3)"
    "plain (str_int 4)" "plain (str_int 5)" "plain (str_int 6)"
    by (simp_all add: plain_def str_int_def)
  show ?thesis
    using p writeLines_single_segment [of str_int 1 2 3 4 5 6 "''out.scr''" Map.empty, OF p]
    by blast
qed

text \<open>
  Claim C8 as it is written fails: the file differs from the three lines of the claim by
  the space before the second newline.
\<close>

theorem writeLines_trailing_space:
  "writeLines str_int [((1,2,3),(4,5,6))] ''out.scr'' Mode_w Map.empty ''out.scr''
     = Some (''zoom -100,-100,-100 -200,-200,-200'' @ newline @ ''line 1,2,3 4,5,6 '' @ newline
             @ ''zoom a'' @ newline)
   \<and> writeLines str_int [((1,2,3),(4,5,6))] ''out.scr'' Mode_w Map.empty ''out.scr''
     \<noteq> Some (''zoom -100,-100,-100 -200,-200,-200'' @ newline @ ''line 1,2,3 4,5,6'' @ newline
             @ ''zoom a'' @ newline)"
  by (simp add: writeLines_def open_file_def line_text_def str_line_def str_point_def replace_def
      str_int_def newline_def)


section \<open>The orchestrator\<close>

lemma read_geom_empty:
  assumes "by_type ''IfcBeam'' = []" and "by_type ''IfcColumn'' = []"
  shows "read_geom by_type [''IfcBeam'', ''IfcColumn'']
     = [(''IfcBeam'', \<lparr>vertices = [], edges = [], elements = []\<rparr>),
        (''IfcColumn'', \<lparr>vertices = [], edges = [], elements = []\<rparr>)]"
  using assms by (simp add: read_geom_def)

lemma abstract_empty:
  "abstract_elements_by_type order \<lparr>vertices = [], edges = [], elements = []\<rparr> = Inr []"
  by (simp add: abstract_elements_by_type_def)

lemma export_empty: "export_elements str_coord idealize f g [] st = st"
  by (simp add: export_elements_def)

text \<open>
  Claim C9, as the code has it. When the geometry kernel yields no beam and no column,
  \<open>process_file\<close> raises nothing and leaves both output files empty: \<open>writeLines\<close>
  writes the header and the footer once for each element, so with no element neither is
  written.
\<close>

theorem process_file_no_elements:
  assumes "by_type ''IfcBeam'' = []" and "by_type ''IfcColumn'' = []"
  shows "process_file lm by_type order str_coord output_elem_filename output_ideal_filename fs
     = (fs(output_elem_filename \<mapsto> [], output_ideal_filename \<mapsto> []), None)"
  by (simp add: process_file_def read_geom_empty [OF assms] lookup_key_def abstract_empty
      export_empty)

theorem process_file_no_elements_witness:
  "empty_kernel ''IfcBeam'' = [] \<and> empty_kernel ''IfcColumn'' = []
   \<and> process_file ieee_libm empty_kernel remdups (str_int \<circ> floor) ''3dModel.scr'' ''IdealModel.scr'' Map.empty
       = (Map.empty(''3dModel.scr'' \<mapsto> [], ''IdealModel.scr'' \<mapsto> []), None)"
proof -
  have b: "empty_kernel ''IfcBeam'' = []" and c: "empty_kernel ''IfcColumn'' = []"
    by (simp_all add: empty_kernel_def)
  show ?thesis using b c process_file_no_elements [OF b c] by (intro conjI)
qed

text \<open>
  Claim C9 as it is written fails on the run with no element: both files exist and are
  empty, so neither holds the header and the footer.
\<close>

theorem process_file_empty_files:
  "fst (process_file ieee_libm empty_kernel remdups (str_int \<circ> floor) ''3dModel.scr'' ''IdealModel.scr''
          Map.empty) ''3dModel.scr'' = Some []
   \<and> fst (process_file ieee_libm empty_kernel remdups (str_int \<circ> floor) ''3dModel.scr'' ''IdealModel.scr''
          Map.empty) ''IdealModel.scr'' = Some []
   \<and> snd (process_file ieee_libm empty_kernel remdups (str_int \<circ> floor) ''3dModel.scr'' ''IdealModel.scr''
          Map.empty) = None
   \<and> Some [] \<noteq> Some (''zoom -100,-100,-100 -200,-200,-200'' @ newline @ ''zoom a'' @ newline)"
  by (simp add: process_file_def read_geom_def empty_kernel_def lookup_key_def
      abstract_elements_by_type_def export_elements_def)


end
